theory Spec2Isabelle
  imports Main
begin

section \<open>JavaScript strings, restricted to ASCII\<close>

text \<open>
  A JavaScript string is modelled as a \<^typ>\<open>string\<close> of ASCII characters; case conversion
  touches the 26 letters only and \<^verbatim>\<open>\s\<close> is the ASCII white space.
\<close>

definition uppers :: string where
  "uppers = ''ABCDEFGHIJKLMNOPQRSTUVWXYZ''"

definition lowers :: string where
  "lowers = ''abcdefghijklmnopqrstuvwxyz''"

definition isUpper :: "char \<Rightarrow> bool" where
  "isUpper c = (c \<in> set uppers)"

definition isLower :: "char \<Rightarrow> bool" where
  "isLower c = (c \<in> set lowers)"

definition isLetter :: "char \<Rightarrow> bool" where
  "isLetter c = (isUpper c \<or> isLower c)"

definition isSpace :: "char \<Rightarrow> bool" where
  "isSpace c = (c \<in> set [CHR '' '', CHR 0x09, CHR 0x0A, CHR 0x0B, CHR 0x0C, CHR 0x0D])"

definition toUpperChar :: "char \<Rightarrow> char" where
  "toUpperChar c = (case map_of (zip lowers uppers) c of Some u \<Rightarrow> u | None \<Rightarrow> c)"

definition toLowerChar :: "char \<Rightarrow> char" where
  "toLowerChar c = (case map_of (zip uppers lowers) c of Some l \<Rightarrow> l | None \<Rightarrow> c)"

definition toUpperCase :: "string \<Rightarrow> string" where
  "toUpperCase s = map toUpperChar s"

definition toLowerCase :: "string \<Rightarrow> string" where
  "toLowerCase s = map toLowerChar s"

definition startsWith :: "string \<Rightarrow> string \<Rightarrow> bool" where
  "startsWith s p = (take (length p) s = p)"

definition endsWith :: "string \<Rightarrow> string \<Rightarrow> bool" where
  "endsWith s p = (length p \<le> length s \<and> drop (length s - length p) s = p)"

text \<open>\<^verbatim>\<open>s.slice(0, -n)\<close>: the string without its last \<open>n\<close> characters.\<close>

definition dropLast :: "nat \<Rightarrow> 'a list \<Rightarrow> 'a list" where
  "dropLast n s = take (length s - n) s"

text \<open>\<^verbatim>\<open>s.indexOf(p)\<close> as an option, and \<^verbatim>\<open>s.lastIndexOf(p)\<close>.\<close>

fun indexOfStr :: "string \<Rightarrow> string \<Rightarrow> nat option" where
  "indexOfStr p [] = (if p = [] then Some 0 else None)"
| "indexOfStr p (c # cs) =
     (if startsWith (c # cs) p then Some 0 else map_option Suc (indexOfStr p cs))"

fun lastIndexOfStr :: "string \<Rightarrow> string \<Rightarrow> nat option" where
  "lastIndexOfStr p [] = (if p = [] then Some 0 else None)"
| "lastIndexOfStr p (c # cs) =
     (case lastIndexOfStr p cs of
        Some i \<Rightarrow> Some (Suc i)
      | None \<Rightarrow> if startsWith (c # cs) p then Some 0 else None)"

definition includesStr :: "string \<Rightarrow> string \<Rightarrow> bool" where
  "includesStr s p = (indexOfStr p s \<noteq> None)"

text \<open>
  \<^verbatim>\<open>s.replace(p, r)\<close> with a string pattern: the first occurrence only. No replacement
  string of the program holds a \<^verbatim>\<open>$\<close>.
\<close>

definition replaceFirst :: "string \<Rightarrow> string \<Rightarrow> string \<Rightarrow> string" where
  "replaceFirst s p r =
     (case indexOfStr p s of
        None \<Rightarrow> s
      | Some i \<Rightarrow> take i s @ r @ drop (i + length p) s)"

text \<open>
  \<^verbatim>\<open>s.split(re)\<close> for a regular expression \<^verbatim>\<open>[...]+\<close> over a character class: every
  maximal run of separators splits once, and a run at either end leaves an empty piece.
  The flag says that the previous character was a separator.
\<close>

fun splitRuns :: "(char \<Rightarrow> bool) \<Rightarrow> bool \<Rightarrow> string \<Rightarrow> string list" where
  "splitRuns sep b [] = [[]]"
| "splitRuns sep b (c # cs) =
     (if sep c then (if b then splitRuns sep True cs else [] # splitRuns sep True cs)
      else (case splitRuns sep False cs of
              p # ps \<Rightarrow> (c # p) # ps
            | [] \<Rightarrow> [[c]]))"

text \<open>\<^verbatim>\<open>s.split(/(?=[A-Z])/)\<close>: a cut in front of every capital letter but the first character.\<close>

fun splitBeforeUpper :: "string \<Rightarrow> string list" where
  "splitBeforeUpper [] = []"
| "splitBeforeUpper (c # cs) =
     (case splitBeforeUpper cs of
        [] \<Rightarrow> [[c]]
      | p # ps \<Rightarrow> (if p \<noteq> [] \<and> isUpper (hd p) then [c] # p # ps else (c # p) # ps))"

section \<open>Naming engine (StringUtils)\<close>

definition capitalizeWord :: "string \<Rightarrow> string" where
  "capitalizeWord w = toUpperCase (take 1 w) @ toLowerCase (drop 1 w)"

definition toPascalCase :: "string \<Rightarrow> string" where
  "toPascalCase str =
     concat (map capitalizeWord
       (splitRuns (\<lambda>c. c = CHR ''-'' \<or> c = CHR ''_'' \<or> isSpace c) False str))"

text \<open>The three global replacements of \<^verbatim>\<open>toKebabCase\<close>, each a left-to-right scan.\<close>

fun hyphenLowerUpper :: "string \<Rightarrow> string" where
  "hyphenLowerUpper (a # b # cs) =
     (if isLower a \<and> isUpper b then a # CHR ''-'' # b # hyphenLowerUpper cs
      else a # hyphenLowerUpper (b # cs))"
| "hyphenLowerUpper cs = cs"

fun hyphenUpperUpperLower :: "string \<Rightarrow> string" where
  "hyphenUpperUpperLower (a # b # c # cs) =
     (if isUpper a \<and> isUpper b \<and> isLower c
      then a # CHR ''-'' # b # c # hyphenUpperUpperLower cs
      else a # hyphenUpperUpperLower (b # c # cs))"
| "hyphenUpperUpperLower cs = cs"

fun hyphenRuns :: "bool \<Rightarrow> string \<Rightarrow> string" where
  "hyphenRuns b [] = []"
| "hyphenRuns b (c # cs) =
     (if isSpace c \<or> c = CHR ''_''
      then (if b then hyphenRuns True cs else CHR ''-'' # hyphenRuns True cs)
      else c # hyphenRuns False cs)"

definition toKebabCase :: "string \<Rightarrow> string" where
  "toKebabCase str =
     toLowerCase (hyphenRuns False (hyphenUpperUpperLower (hyphenLowerUpper str)))"

definition irregularPlurals :: "(string \<times> string) list" where
  "irregularPlurals =
     [(''children'', ''child''), (''people'', ''person''), (''men'', ''man''),
      (''women'', ''woman''), (''feet'', ''foot''), (''teeth'', ''tooth''),
      (''mice'', ''mouse''), (''geese'', ''goose''), (''oxen'', ''ox''),
      (''data'', ''datum''), (''media'', ''medium''), (''criteria'', ''criterion''),
      (''phenomena'', ''phenomenon''), (''indices'', ''index''), (''vertices'', ''vertex''),
      (''matrices'', ''matrix''), (''analyses'', ''analysis''), (''bases'', ''base''),
      (''diagnoses'', ''diagnosis''), (''theses'', ''thesis''), (''crises'', ''crisis''),
      (''oases'', ''oasis'')]"

text \<open>
  \<^verbatim>\<open>irregularPlurals[lowerWord]\<close> is a property read on a plain object, so it also finds the
  members every object inherits. Two of them have an all-lower-case name; the value found
  is not a string, and \<^verbatim>\<open>capitalizeFirst\<close> then fails on it (or hands it back as it is).
\<close>

definition inheritedKeys :: "string list" where
  "inheritedKeys = [''constructor'', ''__proto__'']"

definition capitalizeFirst :: "string \<Rightarrow> string \<Rightarrow> string" where
  "capitalizeFirst singular original =
     (if original = toUpperCase original then toUpperCase singular
      else if take 1 original = toUpperCase (take 1 original) then
        (let singularLower = toLowerCase singular
         in if includesStr singularLower ''directus''
            then replaceFirst singularLower ''directus'' ''Directus''
            else toUpperCase (take 1 singular) @ drop 1 singular)
      else singular)"

text \<open>
  \<^verbatim>\<open>word.match(/Directus([A-Z][a-z]*s?)$/)\<close> and \<^verbatim>\<open>/Directus([A-Z][a-z]*ies)$/\<close>: the match, if
  any, is the leftmost suffix of the word of the form \<^verbatim>\<open>Directus\<close>, one capital, lower-case
  letters to the end. The result is the index where the match starts and the group.
\<close>

definition directusGroupAt :: "string \<Rightarrow> string option" where
  "directusGroupAt s =
     (if startsWith s ''Directus'' then
        (case drop 8 s of
           [] \<Rightarrow> None
         | u # rest \<Rightarrow> if isUpper u \<and> (\<forall>c \<in> set rest. isLower c) then Some (u # rest) else None)
      else None)"

fun matchDirectusSuffix :: "string \<Rightarrow> (nat \<times> string) option" where
  "matchDirectusSuffix [] = None"
| "matchDirectusSuffix (c # cs) =
     (case directusGroupAt (c # cs) of
        Some g \<Rightarrow> Some (0, g)
      | None \<Rightarrow> map_option (\<lambda>(i, g). (Suc i, g)) (matchDirectusSuffix cs))"

definition vesToF :: "string list" where
  "vesToF = [''leaf'', ''wolf'', ''shelf'', ''calf'', ''half'', ''self'', ''knife'', ''life'', ''wife'']"

definition vesBare :: "string list" where
  "vesBare = [''leaf'', ''wolf'', ''shelf'', ''calf'', ''half'', ''self'']"

definition singularEndsWithS :: "string list" where
  "singularEndsWithS = [''glas'', ''clas'', ''mas'', ''pas'', ''gras'', ''ga'', ''bu'', ''acces'']"

text \<open>The plain suffix rules at the end of \<^verbatim>\<open>toSingular\<close>.\<close>

definition regularSingular :: "string \<Rightarrow> string" where
  "regularSingular word =
     (let lowerWord = toLowerCase word;
          withoutVes = dropLast 3 lowerWord;
          withoutEs = dropLast 2 lowerWord;
          lastChar = drop (length withoutEs - 1) withoutEs;
          withoutS = dropLast 1 lowerWord
      in
      if endsWith lowerWord ''ies'' \<and> length lowerWord > 4
        then capitalizeFirst (dropLast 3 lowerWord @ ''y'') word
      else if endsWith lowerWord ''ves'' \<and> length lowerWord > 4
              \<and> withoutVes @ ''f'' \<in> set vesToF
        then capitalizeFirst (withoutVes @ ''f'') word
      else if endsWith lowerWord ''ves'' \<and> length lowerWord > 4 \<and> withoutVes \<in> set vesBare
        then capitalizeFirst withoutVes word
      else if endsWith lowerWord ''es'' \<and> \<not> endsWith lowerWord ''ies''
              \<and> \<not> endsWith lowerWord ''ves'' \<and> length lowerWord > 3
              \<and> (lastChar \<in> set [''s'', ''sh'', ''ch'', ''x'', ''z'']
                   \<or> endsWith withoutEs ''ss'' \<or> endsWith withoutEs ''ch''
                   \<or> endsWith withoutEs ''sh'')
        then capitalizeFirst withoutEs word
      else if endsWith lowerWord ''s'' \<and> length lowerWord > 2
        then (if \<exists>ending \<in> set singularEndsWithS. endsWith withoutS ending
              then word
              else capitalizeFirst withoutS word)
      else word)"

text \<open>
  The compound-word branch: \<^verbatim>\<open>word.match(/^[A-Z][a-z]*[A-Z]/)\<close>, then the last piece of the
  split in front of capitals loses its \<^verbatim>\<open>s\<close> or trades \<^verbatim>\<open>ies\<close> for \<^verbatim>\<open>y\<close>. \<open>None\<close> when the
  branch does not return.
\<close>

definition isCompound :: "string \<Rightarrow> bool" where
  "isCompound word =
     (case word of
        [] \<Rightarrow> False
      | c # cs \<Rightarrow> isUpper c \<and> (case dropWhile isLower cs of [] \<Rightarrow> False | d # _ \<Rightarrow> isUpper d))"

definition compoundSingular :: "string \<Rightarrow> string option" where
  "compoundSingular word =
     (let parts = splitBeforeUpper word in
      if isCompound word \<and> length parts \<ge> 2 then
        (let lastPart = last parts in
         if endsWith word ''s'' \<and> \<not> endsWith word ''ies''
            \<and> endsWith lastPart ''s'' \<and> length lastPart > 1
           then Some (concat (butlast parts @ [dropLast 1 lastPart]))
         else if endsWith word ''ies'' \<and> endsWith lastPart ''ies'' \<and> length lastPart > 3
           then Some (concat (butlast parts @ [dropLast 3 lastPart @ ''y'']))
         else None)
      else None)"

text \<open>The branch for words with the reserved prefix. \<open>None\<close> when the branch does not return.\<close>

definition directusSingular :: "string \<Rightarrow> string option" where
  "directusSingular word =
     (if startsWith word ''Directus'' \<and> length word > length ''Directus'' then
        (case (if endsWith word ''s'' \<and> \<not> endsWith word ''ies''
               then matchDirectusSuffix word else None) of
           Some (i, g) \<Rightarrow> Some (take i word @ ''Directus'' @ dropLast 1 g)
         | None \<Rightarrow>
             (case (if endsWith word ''ies'' then matchDirectusSuffix word else None) of
                Some (i, g) \<Rightarrow> Some (take i word @ ''Directus'' @ dropLast 3 g @ ''y'')
              | None \<Rightarrow> None))
      else None)"

text \<open>
  \<^verbatim>\<open>StringUtils.toSingular\<close>. The result is \<open>None\<close> exactly where the JavaScript does not
  produce a string: the lower-cased word names an inherited member of the table object.
\<close>

definition toSingular :: "string \<Rightarrow> string option" where
  "toSingular word =
     (if length word \<le> 1 then Some word
      else let lowerWord = toLowerCase word in
        (case map_of irregularPlurals lowerWord of
           Some sg \<Rightarrow> Some (capitalizeFirst sg word)
         | None \<Rightarrow>
             if lowerWord \<in> set inheritedKeys then None
             else (case directusSingular word of
                     Some r \<Rightarrow> Some r
                   | None \<Rightarrow>
                       (case compoundSingular word of
                          Some r \<Rightarrow> Some r
                        | None \<Rightarrow> Some (regularSingular word)))))"

section \<open>Generated artifacts and the dependency graph (DependencyUtils)\<close>

record GeneratedSchema =
  collectionName :: string
  schema :: "string option"
  type :: "string option"

text \<open>
  A JavaScript \<^verbatim>\<open>Set\<close> of strings is the list of its members in insertion order; a
  \<^verbatim>\<open>Map\<close> is an association list in insertion order, and setting a key that is present
  replaces its value in place.
\<close>

definition setAdd :: "'a list \<Rightarrow> 'a \<Rightarrow> 'a list" where
  "setAdd xs x = (if x \<in> set xs then xs else xs @ [x])"

definition setDelete :: "'a list \<Rightarrow> 'a \<Rightarrow> 'a list" where
  "setDelete xs x = removeAll x xs"

type_synonym depGraph = "(string \<times> string list) list"

definition mapSet :: "depGraph \<Rightarrow> string \<Rightarrow> string list \<Rightarrow> depGraph" where
  "mapSet g k v =
     (if k \<in> fst ` set g then map (\<lambda>(k', v'). if k' = k then (k', v) else (k', v')) g
      else g @ [(k, v)])"

text \<open>
  One attempt of \<^verbatim>\<open>/Drx[A-Z][a-zA-Z]*Schema/\<close> at the head of a string: the star is greedy
  and gives back letters until \<^verbatim>\<open>Schema\<close> follows, so the match ends with the last
  \<^verbatim>\<open>Schema\<close> inside the run of letters.
\<close>

definition matchDrxAt :: "string \<Rightarrow> string option" where
  "matchDrxAt s =
     (if startsWith s ''Drx'' then
        (case drop 3 s of
           [] \<Rightarrow> None
         | u # rest \<Rightarrow>
             if isUpper u then
               (case lastIndexOfStr ''Schema'' (takeWhile isLetter rest) of
                  Some k \<Rightarrow> Some (''Drx'' @ u # take k rest @ ''Schema'')
                | None \<Rightarrow> None)
             else None)
      else None)"

text \<open>One attempt of \<^verbatim>\<open>/Drs[A-Z][a-zA-Z]*/\<close> at the head of a string.\<close>

definition matchDrsAt :: "string \<Rightarrow> string option" where
  "matchDrsAt s =
     (if startsWith s ''Drs'' then
        (case drop 3 s of
           [] \<Rightarrow> None
         | u # rest \<Rightarrow> if isUpper u then Some (''Drs'' @ u # takeWhile isLetter rest) else None)
      else None)"

text \<open>
  \<^verbatim>\<open>text.match(re)\<close> with the \<^verbatim>\<open>g\<close> flag: all matches from left to right, the search
  resuming behind each match. The counter is the number of characters of the last match
  still to be skipped.
\<close>

fun matchAll :: "(string \<Rightarrow> string option) \<Rightarrow> nat \<Rightarrow> string \<Rightarrow> string list" where
  "matchAll m k [] = []"
| "matchAll m (Suc k) (c # cs) = matchAll m k cs"
| "matchAll m 0 (c # cs) =
     (case m (c # cs) of
        Some found \<Rightarrow> found # matchAll m (length found - 1) cs
      | None \<Rightarrow> matchAll m 0 cs)"

definition hasVariantSuffix :: "string \<Rightarrow> bool" where
  "hasVariantSuffix singularName =
     (endsWith singularName ''Create'' \<or> endsWith singularName ''Update''
      \<or> endsWith singularName ''Get'')"

text \<open>The two \<^verbatim>\<open>forEach\<close> bodies of \<^verbatim>\<open>buildDependencyGraph\<close>, folded over the matches.\<close>

definition addSchemaDependency :: "string \<Rightarrow> string list \<Rightarrow> string \<Rightarrow> string list" where
  "addSchemaDependency currentCollectionName dependencies found =
     (let singularName = replaceFirst (replaceFirst found ''Drx'' []) ''Schema'' []
      in if \<not> hasVariantSuffix singularName \<and> singularName \<noteq> currentCollectionName
         then setAdd dependencies singularName else dependencies)"

definition addTypeDependency :: "string \<Rightarrow> string list \<Rightarrow> string \<Rightarrow> string list" where
  "addTypeDependency currentCollectionName dependencies found =
     (let singularName = replaceFirst found ''Drs'' []
      in if \<not> hasVariantSuffix singularName \<and> singularName \<noteq> currentCollectionName
         then setAdd dependencies singularName else dependencies)"

definition resultDependencies :: "string \<Rightarrow> GeneratedSchema \<Rightarrow> string list" where
  "resultDependencies currentCollectionName result =
     (let fromSchema =
            (case schema result of
               None \<Rightarrow> []
             | Some text \<Rightarrow>
                 foldl (addSchemaDependency currentCollectionName) [] (matchAll matchDrxAt 0 text))
      in (case type result of
            None \<Rightarrow> fromSchema
          | Some text \<Rightarrow>
              foldl (addTypeDependency currentCollectionName) fromSchema
                (matchAll matchDrsAt 0 text)))"

text \<open>
  The loop over the results, with the graph built so far. A name that \<^verbatim>\<open>toSingular\<close>
  cannot turn into a string ends the whole call.
\<close>

fun buildDependencyGraphFrom :: "depGraph \<Rightarrow> GeneratedSchema list \<Rightarrow> depGraph option" where
  "buildDependencyGraphFrom graph [] = Some graph"
| "buildDependencyGraphFrom graph (result # results) =
     (case toSingular (toPascalCase (collectionName result)) of
        None \<Rightarrow> None
      | Some currentCollectionName \<Rightarrow>
          (let dependencies = resultDependencies currentCollectionName result
           in buildDependencyGraphFrom
                (if length dependencies > 0 then mapSet graph currentCollectionName dependencies
                 else graph)
                results))"

definition buildDependencyGraph :: "GeneratedSchema list \<Rightarrow> depGraph option" where
  "buildDependencyGraph results = buildDependencyGraphFrom [] results"

subsection \<open>Cycle detection\<close>

record dfsState =
  visited :: "string list"
  recursionStack :: "string list"
  circularDeps :: "string list list"

text \<open>\<^verbatim>\<open>graph.get(node) || new Set()\<close>\<close>

definition neighborsOf :: "depGraph \<Rightarrow> string \<Rightarrow> string list" where
  "neighborsOf graph node = (case map_of graph node of Some ns \<Rightarrow> ns | None \<Rightarrow> [])"

text \<open>\<^verbatim>\<open>path.indexOf(x)\<close> is \<open>-1\<close> when \<open>x\<close> is absent, and \<^verbatim>\<open>path.slice(i)\<close> counts a negative
  \<open>i\<close> from the end.\<close>

fun indexOf :: "'a list \<Rightarrow> 'a \<Rightarrow> int" where
  "indexOf [] x = -1"
| "indexOf (y # ys) x = (if y = x then 0 else (let i = indexOf ys x in if i < 0 then -1 else i + 1))"

definition slice :: "'a list \<Rightarrow> int \<Rightarrow> 'a list" where
  "slice xs i = (if i < 0 then drop (nat (int (length xs) + i)) xs else drop (nat i) xs)"

text \<open>
  The recursive closure \<^verbatim>\<open>dfs(node, path)\<close> and its loop over the neighbours. The three
  collections the closure shares are the state; the path is an argument, copied at every
  call. The first argument bounds the depth of the recursion: \<open>None\<close> means that the bound
  was reached, and \<open>detectCircularDependencies\<close> below starts with a bound that is never
  reached.
\<close>

fun dfs :: "nat \<Rightarrow> depGraph \<Rightarrow> string \<Rightarrow> string list \<Rightarrow> dfsState \<Rightarrow> dfsState option"
and visitNeighbors ::
  "nat \<Rightarrow> depGraph \<Rightarrow> string list \<Rightarrow> string list \<Rightarrow> dfsState \<Rightarrow> dfsState option" where
  "dfs 0 graph node path st = None"
| "dfs (Suc n) graph node path st =
     (case visitNeighbors n graph (neighborsOf graph node) (path @ [node])
             (st\<lparr>visited := setAdd (visited st) node,
                 recursionStack := setAdd (recursionStack st) node\<rparr>) of
        None \<Rightarrow> None
      | Some st' \<Rightarrow> Some (st'\<lparr>recursionStack := setDelete (recursionStack st') node\<rparr>))"
| "visitNeighbors n graph [] path st = Some st"
| "visitNeighbors n graph (neighbor # rest) path st =
     (if neighbor \<notin> set (visited st) then
        (case dfs n graph neighbor path st of
           None \<Rightarrow> None
         | Some st' \<Rightarrow> visitNeighbors n graph rest path st')
      else if neighbor \<in> set (recursionStack st) then
        visitNeighbors n graph rest path
          (st\<lparr>circularDeps :=
                 circularDeps st @ [slice path (indexOf path neighbor) @ [neighbor]]\<rparr>)
      else visitNeighbors n graph rest path st)"

text \<open>The loop over \<^verbatim>\<open>graph.keys()\<close>.\<close>

fun visitRoots :: "nat \<Rightarrow> depGraph \<Rightarrow> string list \<Rightarrow> dfsState \<Rightarrow> dfsState option" where
  "visitRoots n graph [] st = Some st"
| "visitRoots n graph (node # rest) st =
     (if node \<notin> set (visited st) then
        (case dfs n graph node [] st of
           None \<Rightarrow> None
         | Some st' \<Rightarrow> visitRoots n graph rest st')
      else visitRoots n graph rest st)"

definition graphNodes :: "depGraph \<Rightarrow> string list" where
  "graphNodes graph = map fst graph @ concat (map snd graph)"

definition detectCircularDependencies :: "depGraph \<Rightarrow> string list list option" where
  "detectCircularDependencies graph =
     map_option circularDeps
       (visitRoots (length (graphNodes graph)) graph (map fst graph)
          \<lparr>visited = [], recursionStack = [], circularDeps = []\<rparr>)"

definition isCircularDependency :: "string \<Rightarrow> string \<Rightarrow> string list list \<Rightarrow> bool" where
  "isCircularDependency collectionA collectionB cycles =
     list_ex (\<lambda>cycle. collectionA \<in> set cycle \<and> collectionB \<in> set cycle) cycles"

section \<open>Collection filtering (CollectionUtils)\<close>

text \<open>
  \<^verbatim>\<open>filterCollections(collections, config)\<close> reads the raw name of each collection and two
  members of the configuration: the optional list of requested names and the flag that
  lets the system collections through (absent counts as false).
\<close>

record DirectusCollection =
  collection :: string

record ZodirectusConfig =
  collections :: "string list option"
  includeSystemCollections :: bool
  customFieldMappings :: "string \<Rightarrow> string option"

definition foldersToFilter :: "string list" where
  "foldersToFilter = [''Dialogues'', ''Expert_System'', ''Models'', ''settings'']"

definition filterCollections ::
  "('a DirectusCollection_scheme) list \<Rightarrow> ('b ZodirectusConfig_scheme)
     \<Rightarrow> ('a DirectusCollection_scheme) list" where
  "filterCollections cs config =
     (let targetCollections =
            (case collections config of
               Some requested \<Rightarrow> filter (\<lambda>c. collection c \<in> set requested) cs
             | None \<Rightarrow> cs);
          targetCollections' =
            (if \<not> includeSystemCollections config
             then filter (\<lambda>c. \<not> startsWith (collection c) ''directus_'') targetCollections
             else targetCollections);
          actualCollections =
            filter (\<lambda>c. \<not> (collection c \<in> set foldersToFilter)) targetCollections'
      in actualCollections)"

section \<open>Field descriptors\<close>

text \<open>
  The metadata of a field arrives as JSON. The model keeps the members the generators
  read, each optional where the code guards against its absence. A number is kept as the
  text JavaScript prints for it, which is all the generators do with it.
\<close>

datatype jsval = JUndefined | JNull | JBool bool | JNum string | JStr string

text \<open>
  An entry of \<^verbatim>\<open>options.choices\<close> or \<^verbatim>\<open>options.options\<close>: a bare string, or an object with
  the members \<^verbatim>\<open>value\<close>, \<^verbatim>\<open>text\<close> and, in a checkbox tree, \<^verbatim>\<open>children\<close>.
\<close>

datatype choice =
    ChoiceStr string
  | ChoiceObj jsval jsval "choice list option"

record SubField =
  sub_field :: string
  sub_type :: string

record FieldOptions =
  opt_choices :: "choice list option"
  opt_options :: "choice list option"
  opt_suggestions :: "string list option"
  opt_presets :: "string list option"
  opt_fields :: "SubField list option"
  opt_junction_table :: "string option"
  opt_related_collection :: "string option"
  opt_junction_collection :: "string option"
  opt_collection :: "string option"
  opt_many_collection :: "string option"
  opt_one_collection :: "string option"

record FieldSchema =
  data_type :: string
  is_nullable :: "bool option"
  foreign_key_table :: "string option"

record FieldMeta =
  meta_collection :: string
  special :: "string list option"
  interface :: "string option"
  options :: "FieldOptions option"
  required :: "bool option"

record DirectusField =
  field :: string
  field_type :: string
  field_schema :: "FieldSchema option"
  field_meta :: "FieldMeta option"

record DirectusCollectionWithFields = DirectusCollection +
  field_list :: "DirectusField list"

text \<open>
  A row of the relations endpoint. The validator generator reads the first three members,
  the type generator the other five (which are absent from a row unless the backend puts
  them there).
\<close>

record Relationship =
  rel_collection :: string
  rel_field :: string
  rel_related_collection :: "string option"
  rel_one_collection :: "string option"
  rel_one_field :: "string option"
  rel_many_collection :: "string option"
  rel_many_field :: "string option"
  rel_junction_collection :: "string option"

text \<open>
  \<^verbatim>\<open>parseInt(v, 10)\<close> and \<^verbatim>\<open>parseFloat(v)\<close> are the platform's. Each is taken together with
  the printing of its result: \<open>None\<close> stands for \<^verbatim>\<open>NaN\<close>, \<open>Some s\<close> for a number printed \<open>s\<close>.
\<close>

record numberParsers =
  parseIntDecimal :: "string \<Rightarrow> string option"
  parseFloatText :: "string \<Rightarrow> string option"

subsection \<open>Reading a descriptor\<close>

definition emptyOptions :: FieldOptions where
  "emptyOptions =
     \<lparr>opt_choices = None, opt_options = None, opt_suggestions = None, opt_presets = None,
      opt_fields = None, opt_junction_table = None, opt_related_collection = None,
      opt_junction_collection = None, opt_collection = None, opt_many_collection = None,
      opt_one_collection = None\<rparr>"

text \<open>\<^verbatim>\<open>field.meta?.special || []\<close>, \<^verbatim>\<open>field.meta?.interface || ''\<close>, \<^verbatim>\<open>field.meta?.options || {}\<close>,
  \<^verbatim>\<open>field.schema?.data_type || field.type\<close>, \<^verbatim>\<open>field.meta?.required ?? false\<close> and
  \<^verbatim>\<open>field.schema?.is_nullable ?? true\<close>.\<close>

definition specialOf :: "DirectusField \<Rightarrow> string list" where
  "specialOf f =
     (case field_meta f of
        None \<Rightarrow> []
      | Some m \<Rightarrow> (case special m of None \<Rightarrow> [] | Some sp \<Rightarrow> sp))"

definition interfaceOf :: "DirectusField \<Rightarrow> string" where
  "interfaceOf f =
     (case field_meta f of
        None \<Rightarrow> []
      | Some m \<Rightarrow> (case interface m of None \<Rightarrow> [] | Some i \<Rightarrow> i))"

definition optionsOf :: "DirectusField \<Rightarrow> FieldOptions" where
  "optionsOf f =
     (case field_meta f of
        None \<Rightarrow> emptyOptions
      | Some m \<Rightarrow> (case options m of None \<Rightarrow> emptyOptions | Some opts \<Rightarrow> opts))"

definition directusTypeOf :: "DirectusField \<Rightarrow> string" where
  "directusTypeOf f =
     (case field_schema f of
        None \<Rightarrow> field_type f
      | Some s \<Rightarrow> if data_type s \<noteq> [] then data_type s else field_type f)"

definition isRequiredOf :: "DirectusField \<Rightarrow> bool" where
  "isRequiredOf f =
     (case field_meta f of
        None \<Rightarrow> False
      | Some m \<Rightarrow> (case required m of None \<Rightarrow> False | Some b \<Rightarrow> b))"

definition isNullableOf :: "DirectusField \<Rightarrow> bool" where
  "isNullableOf f =
     (case field_schema f of
        None \<Rightarrow> True
      | Some s \<Rightarrow> (case is_nullable s of None \<Rightarrow> True | Some b \<Rightarrow> b))"

text \<open>An optional string in a condition: absent and empty both count as false.\<close>

definition truthy :: "string option \<Rightarrow> bool" where
  "truthy v = (case v of None \<Rightarrow> False | Some s \<Rightarrow> s \<noteq> [])"

text \<open>\<^verbatim>\<open>v || 'default'\<close> on an optional string.\<close>

definition orElse :: "string option \<Rightarrow> string \<Rightarrow> string" where
  "orElse v d = (case v of None \<Rightarrow> d | Some s \<Rightarrow> if s \<noteq> [] then s else d)"

text \<open>\<^verbatim>\<open>options.choices || []\<close> and its like.\<close>

definition orEmpty :: "'a list option \<Rightarrow> 'a list" where
  "orEmpty v = (case v of None \<Rightarrow> [] | Some xs \<Rightarrow> xs)"

text \<open>\<^verbatim>\<open>xs.join(sep)\<close> on strings, \<^verbatim>\<open>s.split('_')\<close>, and \<^verbatim>\<open>[...new Set(xs)]\<close>, which keeps the
  first of equal members.\<close>

fun joinWith :: "string \<Rightarrow> string list \<Rightarrow> string" where
  "joinWith sep [] = []"
| "joinWith sep [x] = x"
| "joinWith sep (x # y # ys) = x @ sep @ joinWith sep (y # ys)"

fun splitAt :: "char \<Rightarrow> string \<Rightarrow> string list" where
  "splitAt sep [] = [[]]"
| "splitAt sep (c # cs) =
     (if c = sep then [] # splitAt sep cs
      else (case splitAt sep cs of
              p # ps \<Rightarrow> (c # p) # ps
            | [] \<Rightarrow> [[c]]))"

definition unique :: "'a list \<Rightarrow> 'a list" where
  "unique xs = foldl setAdd [] xs"

text \<open>A value inside a template literal, and its truth value in a condition.\<close>

fun templateText :: "jsval \<Rightarrow> string" where
  "templateText JUndefined = ''undefined''"
| "templateText JNull = ''null''"
| "templateText (JBool b) = (if b then ''true'' else ''false'')"
| "templateText (JNum s) = s"
| "templateText (JStr s) = s"

fun truthyVal :: "jsval \<Rightarrow> bool" where
  "truthyVal JUndefined = False"
| "truthyVal JNull = False"
| "truthyVal (JBool b) = b"
| "truthyVal (JNum s) = (s \<noteq> ''0'' \<and> s \<noteq> ''NaN'')"
| "truthyVal (JStr s) = (s \<noteq> [])"

definition quoted :: "string \<Rightarrow> string" where
  "quoted s = [CHR 0x22] @ s @ [CHR 0x22]"

subsection \<open>The predicates of the classification\<close>

text \<open>
  The user-interface-only fields (FieldUtils): a divider and a notice are told by the
  prefix of the field name or by the interface.
\<close>

definition isDividerField :: "DirectusField \<Rightarrow> bool" where
  "isDividerField f =
     (if startsWith (field f) ''divider-'' then True
      else if (case field_meta f of None \<Rightarrow> False | Some m \<Rightarrow> interface m = Some ''divider'')
        then True
      else False)"

definition isNoticeField :: "DirectusField \<Rightarrow> bool" where
  "isNoticeField f =
     (if startsWith (field f) ''notice-'' then True
      else if (case field_meta f of None \<Rightarrow> False | Some m \<Rightarrow> interface m = Some ''notice'')
        then True
      else False)"

text \<open>
  \<^verbatim>\<open>FieldUtils.isUiOnlyField\<close> is \<^verbatim>\<open>return isDividerField(field) || isNoticeField(field);\<close>.
  The two names are written bare, not as members of the class, and the module binds
  neither of them (it imports two types and declares the class). Evaluating the first
  name raises a \<^verbatim>\<open>ReferenceError\<close>, so the function has no result, whatever the field.
\<close>

definition isUiOnlyField :: "DirectusField \<Rightarrow> bool option" where
  "isUiOnlyField f = None"

text \<open>
  Both generators filter the fields of a collection with \<^verbatim>\<open>this.isUiOnlyField(field)\<close>.
  Neither class declares a member of that name and neither extends a class, so the member
  is undefined and the call raises a \<^verbatim>\<open>TypeError\<close>, whatever the field. (Each class
  declares a private \<^verbatim>\<open>isDividerField\<close>, which nothing calls.)
\<close>

definition thisIsUiOnlyField :: "DirectusField \<Rightarrow> bool option" where
  "thisIsUiOnlyField f = None"

text \<open>
  The predicates below are private methods of both generators, written out twice in the
  source with the same text.
\<close>

definition isFileField :: "DirectusField \<Rightarrow> bool" where
  "isFileField f =
     (''file'' \<in> set (specialOf f) \<or> ''files'' \<in> set (specialOf f)
      \<or> interfaceOf f = ''file'' \<or> interfaceOf f = ''file-image''
      \<or> interfaceOf f = ''files'')"

definition isRadioButtonField :: "DirectusField \<Rightarrow> bool" where
  "isRadioButtonField f = (interfaceOf f = ''select-radio'')"

definition isDropdownMultipleField :: "DirectusField \<Rightarrow> bool" where
  "isDropdownMultipleField f = (interfaceOf f = ''select-multiple-dropdown'')"

definition isCheckboxTreeField :: "DirectusField \<Rightarrow> bool" where
  "isCheckboxTreeField f = (interfaceOf f = ''select-multiple-checkbox-tree'')"

definition isDateTimeField :: "DirectusField \<Rightarrow> bool" where
  "isDateTimeField f =
     (let directusType = directusTypeOf f;
          iface = interfaceOf f;
          fieldName = toLowerCase (field f)
      in if directusType = ''timestamp'' \<or> directusType = ''datetime''
            \<or> directusType = ''date'' \<or> directusType = ''time'' then True
         else if iface = ''datetime'' \<or> iface = ''date'' \<or> iface = ''time''
           then True
         else if includesStr fieldName ''date'' \<or> includesStr fieldName ''time''
                 \<or> fieldName = ''ts'' then True
         else False)"

definition isAutocompleteField :: "DirectusField \<Rightarrow> bool" where
  "isAutocompleteField f = (interfaceOf f = ''autocomplete'')"

definition isTagField :: "DirectusField \<Rightarrow> bool" where
  "isTagField f = (''cast-json'' \<in> set (specialOf f) \<and> interfaceOf f = ''tags'')"

definition isRepeaterField :: "DirectusField \<Rightarrow> bool" where
  "isRepeaterField f =
     (''cast-json'' \<in> set (specialOf f) \<and> interfaceOf f = ''list''
      \<and> (case opt_fields (optionsOf f) of None \<Rightarrow> False | Some fs \<Rightarrow> length fs > 0))"

definition isManyToManyJunctionField :: "DirectusField \<Rightarrow> bool" where
  "isManyToManyJunctionField f =
     (if ''m2o'' \<in> set (specialOf f) then False
      else if truthy (opt_junction_table (optionsOf f)) then True
      else if includesStr (interfaceOf f) ''m2m'' \<or> includesStr (interfaceOf f) ''many-to-many''
        then True
      else if ''m2m'' \<in> set (specialOf f) then True
      else False)"

definition isRelationField :: "DirectusField \<Rightarrow> bool" where
  "isRelationField f =
     (''m2o'' \<in> set (specialOf f) \<or> ''o2m'' \<in> set (specialOf f)
      \<or> ''m2a'' \<in> set (specialOf f) \<or> ''m2m'' \<in> set (specialOf f)
      \<or> includesStr (interfaceOf f) ''m2o'' \<or> includesStr (interfaceOf f) ''o2m''
      \<or> includesStr (interfaceOf f) ''m2a'' \<or> includesStr (interfaceOf f) ''m2m''
      \<or> includesStr (interfaceOf f) ''many-to-many''
      \<or> isManyToManyJunctionField f)"

text \<open>\<^verbatim>\<open>isJunctionTable(collection)\<close>, read by the debug comment of the validator generator.\<close>

definition hasForeignKey :: "DirectusField \<Rightarrow> bool" where
  "hasForeignKey f =
     (truthy (case field_schema f of None \<Rightarrow> None | Some s \<Rightarrow> foreign_key_table s)
      \<or> (case field_meta f of
            None \<Rightarrow> False
          | Some m \<Rightarrow> (case special m of None \<Rightarrow> False | Some sp \<Rightarrow> ''m2o'' \<in> set sp)))"

definition isJunctionTable :: "DirectusCollectionWithFields \<Rightarrow> bool" where
  "isJunctionTable c =
     (let rawName = collection c in
      if includesStr rawName ''_''
         \<and> (includesStr rawName ''_junction'' \<or> includesStr rawName ''_link''
              \<or> includesStr rawName ''_relation'') then True
      else if length (filter hasForeignKey (field_list c)) \<ge> 2 then
        length (filter (\<lambda>f. \<not> hasForeignKey f \<and> field f \<noteq> ''id''
                           \<and> \<not> startsWith (field f) ''date_''
                           \<and> \<not> startsWith (field f) ''user_'') (field_list c)) \<le> 2
      else False)"

text \<open>The fixed part of both create-variant omission lists.\<close>

definition systemFields :: "string list" where
  "systemFields = [''user_created'', ''date_created'', ''user_updated'', ''date_updated'']"

definition getFieldsToOmitForCreate :: "DirectusField list \<Rightarrow> bool \<Rightarrow> string list" where
  "getFieldsToOmitForCreate fs hasIdField =
     [''id''] @ filter (\<lambda>systemField. \<exists>f \<in> set fs. field f = systemField) systemFields"

section \<open>The validator generator (ZodGenerator)\<close>

definition nl :: string where
  "nl = [CHR 0x0A]"

definition choiceValue :: "choice \<Rightarrow> jsval" where
  "choiceValue c = (case c of ChoiceStr s \<Rightarrow> JUndefined | ChoiceObj v t ch \<Rightarrow> v)"

text \<open>The local function \<^verbatim>\<open>extractValues\<close> of the checkbox-tree generators.\<close>

fun extractValues :: "choice \<Rightarrow> jsval list" where
  "extractValues (ChoiceStr s) = []"
| "extractValues (ChoiceObj v t ch) =
     (if truthyVal v then [v] else [])
     @ (case ch of None \<Rightarrow> [] | Some items \<Rightarrow> concat (map extractValues items))"

text \<open>
  The local \<^verbatim>\<open>value\<close> of the two enumeration branches: a scalar, or the choice object
  itself when it has no usable member.
\<close>

datatype enumValue = EV jsval | EObject

definition choiceEnumValue :: "choice \<Rightarrow> enumValue" where
  "choiceEnumValue c =
     (case c of
        ChoiceStr s \<Rightarrow> EV (JStr s)
      | ChoiceObj v t ch \<Rightarrow> if truthyVal v then EV v else EObject)"

definition optionEnumValue :: "choice \<Rightarrow> enumValue" where
  "optionEnumValue c =
     (case c of
        ChoiceStr s \<Rightarrow> EV (JStr s)
      | ChoiceObj v t ch \<Rightarrow>
          if truthyVal v then EV v else if truthyVal t then EV t else EObject)"

definition enumText :: "enumValue \<Rightarrow> string" where
  "enumText e = (case e of EV v \<Rightarrow> templateText v | EObject \<Rightarrow> ''[object Object]'')"

subsection \<open>One schema text per kind\<close>

definition generateFileSchema :: "DirectusField \<Rightarrow> string" where
  "generateFileSchema f =
     (if interfaceOf f = ''files'' \<or> ''files'' \<in> set (specialOf f) then ''z.array(DrxFileSchema)''
      else if interfaceOf f = ''file-image'' then ''DrxImageFileSchema''
      else ''DrxFileSchema'')"

definition generateRadioButtonSchema :: "DirectusField \<Rightarrow> string" where
  "generateRadioButtonSchema f =
     (let choices = orEmpty (opt_choices (optionsOf f)) in
      if length choices > 0 then
        ''z.enum(['' @ joinWith '', '' (map (\<lambda>v. quoted (templateText v))
                                        (unique (map choiceValue choices))) @ ''])''
      else ''z.string()'')"

definition generateDropdownMultipleSchema :: "DirectusField \<Rightarrow> string" where
  "generateDropdownMultipleSchema f =
     (let choices = orEmpty (opt_choices (optionsOf f)) in
      if length choices > 0 then
        ''z.array(z.enum(['' @ joinWith '', '' (map (\<lambda>v. quoted (templateText v))
                                                (unique (map choiceValue choices))) @ '']))''
      else ''z.array(z.string())'')"

definition generateCheckboxTreeSchema :: "DirectusField \<Rightarrow> string" where
  "generateCheckboxTreeSchema f =
     (let choices = orEmpty (opt_choices (optionsOf f)) in
      if length choices > 0 then
        ''z.array(z.enum(['' @ joinWith '', '' (map (\<lambda>v. quoted (templateText v))
                                                (unique (concat (map extractValues choices))))
          @ '']))''
      else ''z.array(z.string())'')"

definition generateDateTimeSchema :: "DirectusField \<Rightarrow> string" where
  "generateDateTimeSchema f =
     (let directusType = directusTypeOf f;
          iface = interfaceOf f;
          fieldName = toLowerCase (field f)
      in if directusType = ''date'' \<or> iface = ''date'' \<or> fieldName = ''date''
           then ''z.string().date()''
         else if directusType = ''time'' \<or> iface = ''time'' \<or> fieldName = ''time''
           then ''z.string().time()''
         else if directusType = ''timestamp'' \<or> directusType = ''datetime''
                 \<or> iface = ''datetime'' \<or> includesStr fieldName ''datetime''
                 \<or> fieldName = ''ts''
           then ''z.string().datetime()''
         else ''z.string().datetime()'')"

definition generateAutocompleteSchema :: "DirectusField \<Rightarrow> string" where
  "generateAutocompleteSchema f =
     (let suggestions = orEmpty (opt_suggestions (optionsOf f)) in
      if length suggestions > 0 then ''z.enum(['' @ joinWith '', '' (map quoted suggestions) @ ''])''
      else ''z.string()'')"

definition generateTagSchema :: "DirectusField \<Rightarrow> string" where
  "generateTagSchema f =
     (let presets = orEmpty (opt_presets (optionsOf f)) in
      if length presets > 0
        then ''z.array(z.enum(['' @ joinWith '', '' (map quoted presets) @ '']))''
      else ''z.array(z.string())'')"

definition getZodTypeForSubField :: "string \<Rightarrow> string" where
  "getZodTypeForSubField fieldType =
     (if fieldType \<in> set [''integer'', ''bigint'', ''smallint'', ''tinyint''] then ''z.number().int()''
      else if fieldType \<in> set [''decimal'', ''float'', ''double''] then ''z.number()''
      else if fieldType = ''boolean'' then ''z.boolean()''
      else if fieldType \<in> set [''varchar'', ''char'', ''text'', ''longtext'', ''character varying'']
        then ''z.string()''
      else if fieldType = ''date'' then ''z.string().date()''
      else if fieldType \<in> set [''datetime'', ''timestamp''] then ''z.string().datetime()''
      else if fieldType = ''time'' then ''z.string().time()''
      else if fieldType = ''uuid'' then ''z.string().uuid()''
      else if fieldType = ''json'' then ''z.any()''
      else ''z.string()'')"

definition generateRepeaterSchema :: "DirectusField \<Rightarrow> string" where
  "generateRepeaterSchema f =
     (let repeaterFields = orEmpty (opt_fields (optionsOf f)) in
      if length repeaterFields = 0 then ''z.array(z.any())''
      else
        ''z.array(z.object({'' @ nl @ ''    ''
        @ joinWith ('','' @ nl @ ''    '')
            (map (\<lambda>subField. sub_field subField @ '': '' @ getZodTypeForSubField (sub_type subField))
               repeaterFields)
        @ nl @ ''}))'')"

subsection \<open>The target of a relation\<close>

text \<open>
  The look-up in the relations loaded from the backend, reached for a field tagged
  \<^verbatim>\<open>m2m\<close> whose options name no collection.
\<close>

definition lookupRelationships :: "Relationship list \<Rightarrow> string \<Rightarrow> string \<Rightarrow> string option" where
  "lookupRelationships relationships ownCollection fieldName =
     (case find (\<lambda>rel. rel_collection rel = ownCollection \<and> rel_field rel = fieldName
                        \<and> rel_related_collection rel \<noteq> Some ownCollection) relationships of
        Some m2mRelation \<Rightarrow> rel_related_collection m2mRelation
      | None \<Rightarrow>
     (case find (\<lambda>rel. rel_related_collection rel = Some ownCollection
                        \<and> rel_collection rel \<noteq> ownCollection) relationships of
        Some reverseM2mRelation \<Rightarrow> Some (rel_collection reverseM2mRelation)
      | None \<Rightarrow>
     (let junctionRelations =
            filter (\<lambda>rel. includesStr (rel_collection rel) ''_''
                          \<and> includesStr (rel_collection rel) ownCollection
                          \<and> rel_related_collection rel = Some ownCollection) relationships
      in case junctionRelations of
           [] \<Rightarrow> None
         | first # _ \<Rightarrow>
             (let byFieldName =
                    (if fieldName = ''enables'' \<or> fieldName = ''disables'' then
                       (case find (\<lambda>rel. includesStr (toLowerCase (rel_collection rel)) ''enabler'')
                               junctionRelations of
                          Some rel \<Rightarrow> Some rel
                        | None \<Rightarrow>
                            find (\<lambda>rel. \<not> includesStr (toLowerCase (rel_collection rel)) ''question'')
                              junctionRelations)
                     else None);
                  targetJunctionRelation =
                    (case byFieldName of Some rel \<Rightarrow> rel | None \<Rightarrow> first);
                  parts = splitAt CHR ''_'' (rel_collection targetJunctionRelation)
              in if length parts \<ge> 2 then
                   (case find (\<lambda>part. toLowerCase part \<noteq> toLowerCase ownCollection
                                      \<and> toLowerCase part \<noteq> ''id'') parts of
                      None \<Rightarrow> None
                    | Some relatedPart \<Rightarrow>
                        if relatedPart \<noteq> [] then
                          (let relatedCollection = toLowerCase relatedPart @ ''s'' in
                           if \<exists>rel \<in> set relationships.
                                rel_collection rel = relatedCollection
                                \<or> rel_related_collection rel = Some relatedCollection
                           then Some relatedCollection else None)
                        else None)
                 else None))))"

text \<open>
  \<^verbatim>\<open>getRelatedCollectionName(field)\<close>; \<open>None\<close> is the \<^verbatim>\<open>null\<close> of the source. Inside the
  \<^verbatim>\<open>m2m\<close> branch the source tests \<^verbatim>\<open>related_collection\<close> and \<^verbatim>\<open>junction_table\<close> a second
  time; both were tested (and returned) just before, so the second tests never succeed
  and are left out.
\<close>

definition idSuffixTarget :: "string \<Rightarrow> string option" where
  "idSuffixTarget fieldName =
     (if includesStr fieldName ''_'' then
        (let parts = splitAt CHR ''_'' fieldName in
         if length parts \<ge> 2 \<and> last parts = ''id''
         then Some (joinWith ''_'' (butlast parts) @ ''s'') else None)
      else None)"

definition foreignKeyTableOf :: "DirectusField \<Rightarrow> string option" where
  "foreignKeyTableOf f = (case field_schema f of None \<Rightarrow> None | Some s \<Rightarrow> foreign_key_table s)"

definition getRelatedCollectionName :: "Relationship list \<Rightarrow> DirectusField \<Rightarrow> string option" where
  "getRelatedCollectionName relationships f =
     (let sp = specialOf f;
          opts = optionsOf f;
          inM2mBlock = (''m2m'' \<in> set sp \<or> isManyToManyJunctionField f)
      in
      if ''m2o'' \<in> set sp \<and> truthy (foreignKeyTableOf f) then foreignKeyTableOf f
      else if inM2mBlock \<and> truthy (opt_junction_table opts) then opt_junction_table opts
      else if inM2mBlock \<and> truthy (opt_related_collection opts) then opt_related_collection opts
      else if inM2mBlock \<and> ''m2m'' \<in> set sp then
        (if truthy (opt_junction_collection opts) then opt_junction_collection opts
         else if truthy (opt_collection opts) then opt_collection opts
         else if truthy (opt_many_collection opts) then opt_many_collection opts
         else if truthy (opt_one_collection opts) then opt_one_collection opts
         else if length relationships > 0 then
           (case field_meta f of
              None \<Rightarrow> None
            | Some m \<Rightarrow> lookupRelationships relationships (meta_collection m) (field f))
         else None)
      else if inM2mBlock \<and> idSuffixTarget (field f) \<noteq> None then idSuffixTarget (field f)
      else if ''o2m'' \<in> set sp then
        (if truthy (opt_related_collection opts) then opt_related_collection opts
         else if field f = ''activity_logs'' then Some ''audit_activity_logs''
         else None)
      else None)"

subsection \<open>The classification chain\<close>

definition zodChoiceText :: "'a numberParsers_scheme \<Rightarrow> string \<Rightarrow> enumValue \<Rightarrow> string" where
  "zodChoiceText parsers directusType v =
     (if directusType = ''integer'' \<or> directusType = ''bigint'' then
        (case parseIntDecimal parsers (enumText v) of None \<Rightarrow> enumText v | Some n \<Rightarrow> n)
      else if directusType = ''decimal'' \<or> directusType = ''float'' \<or> directusType = ''real'' then
        (case parseFloatText parsers (enumText v) of None \<Rightarrow> enumText v | Some n \<Rightarrow> n)
      else if directusType = ''boolean'' then
        (if v = EV (JStr ''true'') \<or> v = EV (JBool True) then ''true'' else ''false'')
      else quoted (enumText v))"

text \<open>The part of \<^verbatim>\<open>getZodType\<close> for a relation with a known target; \<open>None\<close> when the source
  falls out of the branch, \<open>Some None\<close> when \<^verbatim>\<open>toSingular\<close> fails.\<close>

definition relationSchema :: "DirectusField \<Rightarrow> string \<Rightarrow> string option option" where
  "relationSchema f relatedCollection =
     (let isSystemCollection = startsWith relatedCollection ''directus_'';
          baseCollectionName =
            (if isSystemCollection then replaceFirst relatedCollection ''directus_'' []
             else relatedCollection)
      in case toSingular (toPascalCase baseCollectionName) of
           None \<Rightarrow> Some None
         | Some targetName \<Rightarrow>
             (let relatedSchemaName =
                    (if isSystemCollection then ''DrxDirectus'' @ targetName @ ''Schema''
                     else ''Drx'' @ targetName @ ''Schema'');
                  currentCollectionName =
                    (case field_meta f of None \<Rightarrow> [] | Some m \<Rightarrow> meta_collection m);
                  isSelfReference = (currentCollectionName = relatedCollection)
              in if ''m2o'' \<in> set (specialOf f) then
                   (if isSelfReference then
                      (case (if isSystemCollection
                             then toSingular (toPascalCase
                                    (replaceFirst relatedCollection ''directus_'' []))
                             else toSingular (toPascalCase relatedCollection)) of
                         None \<Rightarrow> Some None
                       | Some selfName \<Rightarrow>
                           Some (Some (''z.lazy(() => ''
                             @ (if isSystemCollection then ''DrxDirectus'' @ selfName @ ''Schema''
                                else ''Drx'' @ selfName @ ''Schema'') @ '')'')))
                    else Some (Some relatedSchemaName))
                 else if ''o2m'' \<in> set (specialOf f) then
                   Some (Some (''z.array('' @ relatedSchemaName @ '')''))
                 else if ''m2a'' \<in> set (specialOf f) then
                   Some (Some (''z.array('' @ relatedSchemaName @ '')''))
                 else if ''m2m'' \<in> set (specialOf f) \<or> isManyToManyJunctionField f then
                   Some (Some (''z.array('' @ relatedSchemaName @ '')''))
                 else None))"

text \<open>The end of the chain: enumerations from the options, the special tags, the raw type.\<close>

definition zodScalarType ::
  "'c ZodirectusConfig_scheme \<Rightarrow> 'a numberParsers_scheme \<Rightarrow> DirectusField \<Rightarrow> string" where
  "zodScalarType config parsers f =
     (let directusType = directusTypeOf f;
          sp = specialOf f;
          opts = optionsOf f
      in
      if length (orEmpty (opt_choices opts)) > 0 then
        ''z.enum(['' @ joinWith '', ''
           (map (\<lambda>c. zodChoiceText parsers directusType (choiceEnumValue c))
              (orEmpty (opt_choices opts))) @ ''])''
      else if length (orEmpty (opt_options opts)) > 0 then
        ''z.enum(['' @ joinWith '', ''
           (map (\<lambda>c. zodChoiceText parsers directusType (optionEnumValue c))
              (orEmpty (opt_options opts))) @ ''])''
      else if ''uuid'' \<in> set sp then ''z.string().uuid()''
      else if ''date-created'' \<in> set sp \<or> ''date-updated'' \<in> set sp then ''z.string().datetime()''
      else if ''user-created'' \<in> set sp \<or> ''user-updated'' \<in> set sp then ''z.string()''
      else if ''sort'' \<in> set sp then ''z.number().int()''
      else if directusType = ''uuid'' then ''z.string().uuid()''
      else if directusType \<in> set [''varchar'', ''char'', ''text'', ''longtext'', ''character varying'']
        then ''z.string()''
      else if directusType \<in> set [''integer'', ''bigint'', ''smallint'', ''tinyint'']
        then ''z.number().int()''
      else if directusType \<in> set [''decimal'', ''float'', ''double''] then ''z.number()''
      else if directusType = ''boolean'' then ''z.boolean()''
      else if directusType = ''date'' then ''z.string().date()''
      else if directusType \<in> set [''datetime'', ''timestamp''] then ''z.string().datetime()''
      else if directusType = ''time'' then ''z.string().time()''
      else if directusType = ''json'' then ''z.any()''
      else if directusType = ''geometry'' then ''z.any()''
      else if directusType = ''binary'' then ''z.string()''
      else orElse (customFieldMappings config directusType) ''z.string()'')"

text \<open>\<^verbatim>\<open>getZodType(field)\<close>; \<open>None\<close> when \<^verbatim>\<open>toSingular\<close> fails on the relation's target.\<close>

definition getZodType ::
  "'c ZodirectusConfig_scheme \<Rightarrow> 'a numberParsers_scheme \<Rightarrow> Relationship list
     \<Rightarrow> DirectusField \<Rightarrow> string option" where
  "getZodType config parsers relationships f =
     (if isFileField f then Some (generateFileSchema f)
      else if isRadioButtonField f then Some (generateRadioButtonSchema f)
      else if isDropdownMultipleField f then Some (generateDropdownMultipleSchema f)
      else if isCheckboxTreeField f then Some (generateCheckboxTreeSchema f)
      else if isDateTimeField f then Some (generateDateTimeSchema f)
      else if isAutocompleteField f then Some (generateAutocompleteSchema f)
      else if isTagField f then Some (generateTagSchema f)
      else if isRepeaterField f then Some (generateRepeaterSchema f)
      else
        (case (if isRelationField f then
                 (case getRelatedCollectionName relationships f of
                    None \<Rightarrow> None
                  | Some relatedCollection \<Rightarrow>
                      if relatedCollection \<noteq> [] then relationSchema f relatedCollection
                      else None)
               else None) of
           Some r \<Rightarrow> r
         | None \<Rightarrow> Some (zodScalarType config parsers f)))"

subsection \<open>Fields and collections\<close>

definition generateFieldSchema ::
  "'c ZodirectusConfig_scheme \<Rightarrow> 'a numberParsers_scheme \<Rightarrow> Relationship list
     \<Rightarrow> DirectusField \<Rightarrow> string option" where
  "generateFieldSchema config parsers relationships f =
     (case getZodType config parsers relationships f of
        None \<Rightarrow> None
      | Some zodType \<Rightarrow>
          Some (field f @ '': '' @ zodType
                @ (if isNullableOf f \<and> \<not> isRequiredOf f then ''.nullable()'' else [])
                @ (if \<not> isRequiredOf f then ''.optional()'' else [])))"

text \<open>\<^verbatim>\<open>xs.map(g)\<close> for a \<open>g\<close> that may fail: the first failure ends the whole map.\<close>

fun mapM :: "('a \<Rightarrow> 'b option) \<Rightarrow> 'a list \<Rightarrow> 'b list option" where
  "mapM g [] = Some []"
| "mapM g (x # xs) =
     (case g x of
        None \<Rightarrow> None
      | Some y \<Rightarrow> (case mapM g xs of None \<Rightarrow> None | Some ys \<Rightarrow> Some (y # ys)))"

text \<open>
  \<^verbatim>\<open>fields.filter(field => !this.isUiOnlyField(field))\<close>: the callback runs once for each
  field, from the first on, and the first call that raises ends the filter. On an empty
  list it never runs.
\<close>

fun rejectFields ::
  "(DirectusField \<Rightarrow> bool option) \<Rightarrow> DirectusField list \<Rightarrow> DirectusField list option" where
  "rejectFields p [] = Some []"
| "rejectFields p (f # fs) =
     (case p f of
        None \<Rightarrow> None
      | Some drop_it \<Rightarrow>
          (case rejectFields p fs of
             None \<Rightarrow> None
           | Some kept \<Rightarrow> Some (if \<not> drop_it then f # kept else kept)))"

text \<open>The locals \<^verbatim>\<open>filteredFields\<close> and \<^verbatim>\<open>hasIdField\<close> of both generators.\<close>

definition filteredFields :: "DirectusCollectionWithFields \<Rightarrow> DirectusField list option" where
  "filteredFields c = rejectFields thisIsUiOnlyField (field_list c)"

definition hasIdField :: "DirectusField list \<Rightarrow> bool" where
  "hasIdField fs = (\<exists>f \<in> set fs. field f = ''id'')"

definition boolText :: "bool \<Rightarrow> string" where
  "boolText b = (if b then ''true'' else ''false'')"

definition relationDebugLines :: "Relationship list \<Rightarrow> DirectusField \<Rightarrow> string" where
  "relationDebugLines relationships f =
     ''// Field: '' @ field f @ nl
     @ ''//   Special: ['' @ joinWith '', '' (specialOf f) @ '']'' @ nl
     @ ''//   Interface: '' @ interfaceOf f @ nl
     @ ''//   Related Collection: ''
       @ orElse (getRelatedCollectionName relationships f) ''Unknown'' @ nl
     @ ''//   Junction Table: '' @ orElse (opt_junction_table (optionsOf f)) ''None'' @ nl
     @ ''//   Is M2M Junction: '' @ boolText (isManyToManyJunctionField f) @ nl"

definition generateRelationshipDebugInfo ::
  "Relationship list \<Rightarrow> DirectusCollectionWithFields \<Rightarrow> string" where
  "generateRelationshipDebugInfo relationships c =
     (let relationFields = filter isRelationField (field_list c);
          junctionTables = isJunctionTable c
      in if length relationFields = 0 \<and> \<not> junctionTables then []
         else
           nl @ ''// DEBUG: Relationship information for '' @ collection c @ nl
           @ (if junctionTables then ''// This appears to be a junction table'' @ nl else [])
           @ concat (map (relationDebugLines relationships) relationFields)
           @ ''// END DEBUG'' @ nl @ nl)"

text \<open>The four variants of the validator, in the plain and in the deferred form, as the two
  arms of \<^verbatim>\<open>generateSchema\<close> write them behind the debug comment.\<close>

definition omitFieldsString :: "string list \<Rightarrow> string" where
  "omitFieldsString fieldsToOmit =
     joinWith ('','' @ nl) (map (\<lambda>name. ''    '' @ name @ '': true'') fieldsToOmit)"

definition schemaVariants :: "string \<Rightarrow> string list \<Rightarrow> string list \<Rightarrow> bool \<Rightarrow> string" where
  "schemaVariants schemaName fs fieldsToOmit isCircular =
     (let fieldsString = joinWith ('','' @ nl @ ''    '') fs;
          createSchemaName = replaceFirst schemaName ''Schema'' ''CreateSchema'';
          updateSchemaName = replaceFirst schemaName ''Schema'' ''UpdateSchema'';
          getSchemaName = replaceFirst schemaName ''Schema'' ''GetSchema''
      in
      if isCircular then
        ''export const '' @ schemaName @ '': z.ZodType<any> = z.lazy(() => z.object({'' @ nl
          @ ''    '' @ fieldsString @ nl @ ''}));''
          @ nl @ nl
          @ ''export const '' @ createSchemaName @ '': z.ZodType<any> = z.lazy(() => (''
          @ schemaName @ '' as z.ZodObject<any>).omit({'' @ nl
          @ omitFieldsString fieldsToOmit @ nl @ ''}));''
          @ nl @ nl
          @ ''export const '' @ updateSchemaName @ '': z.ZodType<any> = z.lazy(() => (''
          @ schemaName @ '' as z.ZodObject<any>).partial().required({'' @ nl
          @ ''    id: true'' @ nl @ ''}));''
          @ nl @ nl
          @ ''export const '' @ getSchemaName @ '': z.ZodType<any> = z.lazy(() => ''
          @ schemaName @ '');''
      else
        ''export const '' @ schemaName @ '' = z.object({'' @ nl
          @ ''    '' @ fieldsString @ nl @ ''});''
          @ nl @ nl
          @ ''export const '' @ createSchemaName @ '' = '' @ schemaName @ ''.omit({'' @ nl
          @ omitFieldsString fieldsToOmit @ nl @ ''});''
          @ nl @ nl
          @ ''export const '' @ updateSchemaName @ '' = '' @ schemaName
          @ ''.partial().required({'' @ nl @ ''    id: true'' @ nl @ ''});''
          @ nl @ nl
          @ ''export const '' @ getSchemaName @ '' = '' @ schemaName @ '';'')"

text \<open>
  \<^verbatim>\<open>generateSchema(collection, isCircularDependency)\<close>. \<open>None\<close> when the call raises:
  \<^verbatim>\<open>toSingular\<close> fails on the name, the filter on the fields raises, or \<^verbatim>\<open>toSingular\<close> fails
  on the target of a relation.
\<close>

definition generateSchema ::
  "'c ZodirectusConfig_scheme \<Rightarrow> 'a numberParsers_scheme \<Rightarrow> Relationship list
     \<Rightarrow> DirectusCollectionWithFields \<Rightarrow> bool \<Rightarrow> string option" where
  "generateSchema config parsers relationships c isCircular =
     (case toSingular (toPascalCase (collection c)) of
        None \<Rightarrow> None
      | Some singularName \<Rightarrow>
          (case filteredFields c of
             None \<Rightarrow> None
           | Some kept \<Rightarrow>
               (case mapM (generateFieldSchema config parsers relationships) kept of
                  None \<Rightarrow> None
                | Some entries \<Rightarrow>
                    Some (generateRelationshipDebugInfo relationships c
                          @ schemaVariants (''Drx'' @ singularName @ ''Schema'')
                              (if \<not> hasIdField kept
                               then ''id: z.string().uuid().optional()'' # entries
                               else entries)
                              (getFieldsToOmitForCreate kept (hasIdField kept))
                              isCircular))))"

section \<open>The type generator (TypeGenerator)\<close>

text \<open>The type generator has a singular rule of its own.\<close>

definition typeToSingular :: "string \<Rightarrow> string" where
  "typeToSingular word =
     (if endsWith word ''ies'' then dropLast 3 word @ ''y''
      else if endsWith word ''ses'' \<or> endsWith word ''shes'' \<or> endsWith word ''ches''
              \<or> endsWith word ''xes'' \<or> endsWith word ''zes'' then dropLast 2 word
      else if endsWith word ''s'' \<and> length word > 1 then dropLast 1 word
      else word)"

subsection \<open>One type text per kind\<close>

definition generateFileType :: "DirectusField \<Rightarrow> string" where
  "generateFileType f =
     (if interfaceOf f = ''files'' \<or> ''files'' \<in> set (specialOf f) then ''DrsFile[]''
      else if interfaceOf f = ''file-image'' then ''DrsImageFile''
      else ''DrsFile'')"

definition generateRadioButtonType :: "DirectusField \<Rightarrow> string" where
  "generateRadioButtonType f =
     (let choices = orEmpty (opt_choices (optionsOf f)) in
      if length choices > 0 then
        joinWith '' | '' (map (\<lambda>v. quoted (templateText v)) (unique (map choiceValue choices)))
      else ''string'')"

definition generateDropdownMultipleType :: "DirectusField \<Rightarrow> string" where
  "generateDropdownMultipleType f =
     (let choices = orEmpty (opt_choices (optionsOf f)) in
      if length choices > 0 then
        ''('' @ joinWith '' | '' (map (\<lambda>v. quoted (templateText v))
                                  (unique (map choiceValue choices))) @ '')[]''
      else ''string[]'')"

definition generateCheckboxTreeType :: "DirectusField \<Rightarrow> string" where
  "generateCheckboxTreeType f =
     (let choices = orEmpty (opt_choices (optionsOf f)) in
      if length choices > 0 then
        ''('' @ joinWith '' | '' (map (\<lambda>v. quoted (templateText v))
                                  (unique (concat (map extractValues choices)))) @ '')[]''
      else ''string[]'')"

definition generateDateTimeType :: "DirectusField \<Rightarrow> string" where
  "generateDateTimeType f =
     (let directusType = directusTypeOf f;
          iface = interfaceOf f;
          fieldName = toLowerCase (field f)
      in if directusType = ''date'' \<or> iface = ''date'' \<or> fieldName = ''date'' then ''string''
         else if directusType = ''time'' \<or> iface = ''time'' \<or> fieldName = ''time'' then ''string''
         else if directusType = ''timestamp'' \<or> directusType = ''datetime''
                 \<or> iface = ''datetime'' \<or> includesStr fieldName ''datetime''
                 \<or> fieldName = ''ts'' then ''string''
         else ''string'')"

definition generateAutocompleteType :: "DirectusField \<Rightarrow> string" where
  "generateAutocompleteType f =
     (let suggestions = orEmpty (opt_suggestions (optionsOf f)) in
      if length suggestions > 0 then joinWith '' | '' (map quoted suggestions)
      else ''string'')"

definition generateTagType :: "DirectusField \<Rightarrow> string" where
  "generateTagType f =
     (let presets = orEmpty (opt_presets (optionsOf f)) in
      if length presets > 0 then ''('' @ joinWith '' | '' (map quoted presets) @ '')[]''
      else ''string[]'')"

definition getTypeScriptTypeForSubField :: "string \<Rightarrow> string" where
  "getTypeScriptTypeForSubField fieldType =
     (if fieldType \<in> set [''integer'', ''bigint'', ''smallint'', ''tinyint''] then ''number''
      else if fieldType \<in> set [''decimal'', ''float'', ''double''] then ''number''
      else if fieldType = ''boolean'' then ''boolean''
      else if fieldType \<in> set [''varchar'', ''char'', ''text'', ''longtext'', ''character varying'']
        then ''string''
      else if fieldType = ''date'' then ''string''
      else if fieldType \<in> set [''datetime'', ''timestamp''] then ''string''
      else if fieldType = ''time'' then ''string''
      else if fieldType = ''uuid'' then ''string''
      else if fieldType = ''json'' then ''any''
      else ''string'')"

definition generateRepeaterType :: "DirectusField \<Rightarrow> string" where
  "generateRepeaterType f =
     (let repeaterFields = orEmpty (opt_fields (optionsOf f)) in
      if length repeaterFields = 0 then ''any[]''
      else
        ''{'' @ nl @ ''    ''
        @ joinWith ''; ''
            (map (\<lambda>subField. sub_field subField @ '': ''
                               @ getTypeScriptTypeForSubField (sub_type subField))
               repeaterFields)
        @ '';'' @ nl @ ''}[]'')"

subsection \<open>The target of a relation\<close>

definition lookupRelationshipsForType ::
  "Relationship list \<Rightarrow> string \<Rightarrow> string \<Rightarrow> string option" where
  "lookupRelationshipsForType relationships ownCollection fieldName =
     (case find (\<lambda>rel. rel_one_collection rel = Some ownCollection
                        \<and> rel_one_field rel = Some fieldName
                        \<and> rel_many_collection rel \<noteq> Some ownCollection) relationships of
        Some m2mRelation \<Rightarrow> rel_many_collection m2mRelation
      | None \<Rightarrow>
     (case find (\<lambda>rel. rel_many_collection rel = Some ownCollection
                        \<and> rel_many_field rel = Some fieldName
                        \<and> rel_one_collection rel \<noteq> Some ownCollection) relationships of
        Some reverseM2mRelation \<Rightarrow> rel_one_collection reverseM2mRelation
      | None \<Rightarrow>
     (case find (\<lambda>rel. rel_junction_collection rel = Some ownCollection
                        \<and> (rel_one_collection rel \<noteq> Some ownCollection
                             \<or> rel_many_collection rel \<noteq> Some ownCollection)) relationships of
        Some junctionRelation \<Rightarrow>
          (if rel_one_collection junctionRelation = Some ownCollection
           then rel_many_collection junctionRelation
           else rel_one_collection junctionRelation)
      | None \<Rightarrow> None)))"

text \<open>The type generator's \<^verbatim>\<open>getRelatedCollectionName\<close>: the validator generator's, with the
  other look-up.\<close>

definition getRelatedCollectionNameForType ::
  "Relationship list \<Rightarrow> DirectusField \<Rightarrow> string option" where
  "getRelatedCollectionNameForType relationships f =
     (let sp = specialOf f;
          opts = optionsOf f;
          inM2mBlock = (''m2m'' \<in> set sp \<or> isManyToManyJunctionField f)
      in
      if ''m2o'' \<in> set sp \<and> truthy (foreignKeyTableOf f) then foreignKeyTableOf f
      else if inM2mBlock \<and> truthy (opt_junction_table opts) then opt_junction_table opts
      else if inM2mBlock \<and> truthy (opt_related_collection opts) then opt_related_collection opts
      else if inM2mBlock \<and> ''m2m'' \<in> set sp then
        (if truthy (opt_junction_collection opts) then opt_junction_collection opts
         else if truthy (opt_collection opts) then opt_collection opts
         else if truthy (opt_many_collection opts) then opt_many_collection opts
         else if truthy (opt_one_collection opts) then opt_one_collection opts
         else if length relationships > 0 then
           (case field_meta f of
              None \<Rightarrow> None
            | Some m \<Rightarrow> lookupRelationshipsForType relationships (meta_collection m) (field f))
         else None)
      else if inM2mBlock \<and> idSuffixTarget (field f) \<noteq> None then idSuffixTarget (field f)
      else if ''o2m'' \<in> set sp then
        (if truthy (opt_related_collection opts) then opt_related_collection opts
         else if field f = ''activity_logs'' then Some ''audit_activity_logs''
         else None)
      else None)"

subsection \<open>The classification chain\<close>

definition typeChoiceText :: "'a numberParsers_scheme \<Rightarrow> string \<Rightarrow> enumValue \<Rightarrow> string" where
  "typeChoiceText parsers directusType v =
     (if directusType = ''integer'' \<or> directusType = ''bigint'' then
        (case parseIntDecimal parsers (enumText v) of
           None \<Rightarrow> quoted (enumText v) | Some n \<Rightarrow> n)
      else if directusType = ''decimal'' \<or> directusType = ''float'' \<or> directusType = ''real'' then
        (case parseFloatText parsers (enumText v) of
           None \<Rightarrow> quoted (enumText v) | Some n \<Rightarrow> n)
      else if directusType = ''boolean'' then
        (if v = EV (JStr ''true'') \<or> v = EV (JBool True) then ''true'' else ''false'')
      else quoted (enumText v))"

definition relationType :: "DirectusField \<Rightarrow> string \<Rightarrow> string option" where
  "relationType f relatedCollection =
     (let isSystemCollection = startsWith relatedCollection ''directus_'';
          baseCollectionName =
            (if isSystemCollection then replaceFirst relatedCollection ''directus_'' []
             else relatedCollection);
          targetName = typeToSingular (toPascalCase baseCollectionName);
          relatedTypeName =
            (if isSystemCollection then ''DrsDirectus'' @ targetName else ''Drs'' @ targetName)
      in if ''m2o'' \<in> set (specialOf f) then Some relatedTypeName
         else if ''o2m'' \<in> set (specialOf f) then Some (relatedTypeName @ ''[]'')
         else if ''m2a'' \<in> set (specialOf f) then Some (relatedTypeName @ ''[]'')
         else if ''m2m'' \<in> set (specialOf f) \<or> isManyToManyJunctionField f
           then Some (relatedTypeName @ ''[]'')
         else None)"

definition typeScalarType ::
  "'c ZodirectusConfig_scheme \<Rightarrow> 'a numberParsers_scheme \<Rightarrow> DirectusField \<Rightarrow> string" where
  "typeScalarType config parsers f =
     (let directusType = directusTypeOf f;
          sp = specialOf f;
          opts = optionsOf f
      in
      if length (orEmpty (opt_choices opts)) > 0 then
        joinWith '' | ''
          (map (\<lambda>c. typeChoiceText parsers directusType (choiceEnumValue c))
             (orEmpty (opt_choices opts)))
      else if length (orEmpty (opt_options opts)) > 0 then
        joinWith '' | ''
          (map (\<lambda>c. typeChoiceText parsers directusType (optionEnumValue c))
             (orEmpty (opt_options opts)))
      else if ''uuid'' \<in> set sp then ''string''
      else if ''date-created'' \<in> set sp \<or> ''date-updated'' \<in> set sp then ''string''
      else if ''user-created'' \<in> set sp \<or> ''user-updated'' \<in> set sp then ''string''
      else if ''sort'' \<in> set sp then ''number''
      else if directusType = ''uuid'' then ''string''
      else if directusType \<in> set [''varchar'', ''char'', ''text'', ''longtext'', ''character varying'']
        then ''string''
      else if directusType \<in> set [''integer'', ''bigint'', ''smallint'', ''tinyint''] then ''number''
      else if directusType \<in> set [''decimal'', ''float'', ''double''] then ''number''
      else if directusType = ''boolean'' then ''boolean''
      else if directusType = ''date'' then ''string''
      else if directusType \<in> set [''datetime'', ''timestamp''] then ''string''
      else if directusType = ''time'' then ''string''
      else if directusType = ''json'' then ''any''
      else if directusType = ''geometry'' then ''any''
      else if directusType = ''binary'' then ''string''
      else orElse (customFieldMappings config directusType) ''any'')"

definition getTypeScriptType ::
  "'c ZodirectusConfig_scheme \<Rightarrow> 'a numberParsers_scheme \<Rightarrow> Relationship list
     \<Rightarrow> DirectusField \<Rightarrow> string" where
  "getTypeScriptType config parsers relationships f =
     (if isFileField f then generateFileType f
      else if isRadioButtonField f then generateRadioButtonType f
      else if isDropdownMultipleField f then generateDropdownMultipleType f
      else if isCheckboxTreeField f then generateCheckboxTreeType f
      else if isDateTimeField f then generateDateTimeType f
      else if isAutocompleteField f then generateAutocompleteType f
      else if isTagField f then generateTagType f
      else if isRepeaterField f then generateRepeaterType f
      else
        (case (if isRelationField f then
                 (case getRelatedCollectionNameForType relationships f of
                    None \<Rightarrow> None
                  | Some relatedCollection \<Rightarrow>
                      if relatedCollection \<noteq> [] then relationType f relatedCollection
                      else None)
               else None) of
           Some r \<Rightarrow> r
         | None \<Rightarrow> typeScalarType config parsers f))"

subsection \<open>Fields and collections\<close>

definition generateFieldType ::
  "'c ZodirectusConfig_scheme \<Rightarrow> 'a numberParsers_scheme \<Rightarrow> Relationship list
     \<Rightarrow> DirectusField \<Rightarrow> string" where
  "generateFieldType config parsers relationships f =
     field f @ (if \<not> isRequiredOf f then ''?'' else [])
     @ '': '' @ getTypeScriptType config parsers relationships f"

text \<open>\<^verbatim>\<open>generateType(collection)\<close>; \<open>None\<close> when the filter on the fields raises.\<close>

definition generateType ::
  "'c ZodirectusConfig_scheme \<Rightarrow> 'a numberParsers_scheme \<Rightarrow> Relationship list
     \<Rightarrow> DirectusCollectionWithFields \<Rightarrow> string option" where
  "generateType config parsers relationships c =
     (let typeName = ''Drs'' @ typeToSingular (toPascalCase (collection c)) in
      case filteredFields c of
        None \<Rightarrow> None
      | Some kept \<Rightarrow>
          (let entries = map (generateFieldType config parsers relationships) kept;
               allEntries = (if \<not> hasIdField kept then ''id?: string'' # entries else entries);
               fieldsString = joinWith ('';'' @ nl @ ''  '') allEntries;
               baseInterface =
                 ''export interface '' @ typeName @ '' {'' @ nl @ ''  '' @ fieldsString @ '';''
                 @ nl @ ''}'';
               fieldsToOmit = getFieldsToOmitForCreate kept (hasIdField kept);
               createInterface =
                 ''export type '' @ typeName @ ''Create = Omit<'' @ typeName @ '', ''
                 @ joinWith '' | '' (map quoted fieldsToOmit) @ ''>;'';
               updateInterface =
                 ''export type '' @ typeName @ ''Update = Partial<'' @ typeName
                 @ ''> & Required<Pick<'' @ typeName @ '', '' @ quoted ''id'' @ ''>>;'';
               getInterface = ''export type '' @ typeName @ ''Get = '' @ typeName @ '';''
           in Some (baseInterface @ nl @ nl @ createInterface @ nl @ nl @ updateInterface
                    @ nl @ nl @ getInterface)))"

section \<open>Import lines (ImportUtils)\<close>

text \<open>
  \<^verbatim>\<open>schema.match(/z\.object\(\{[\s\S]*?\}\)/)\<close>: the first \<^verbatim>\<open>z.object({\<close> and, the star being
  lazy, everything up to the first \<^verbatim>\<open>})\<close> behind it.
\<close>

definition matchObjectBlock :: "string \<Rightarrow> string option" where
  "matchObjectBlock text =
     (case indexOfStr ''z.object({'' text of
        None \<Rightarrow> None
      | Some i \<Rightarrow>
          (let rest = drop (i + length ''z.object({'') text in
           case indexOfStr ''})'' rest of
             None \<Rightarrow> None
           | Some j \<Rightarrow> Some (''z.object({'' @ take (j + length ''})'') rest)))"

text \<open>
  The two \<^verbatim>\<open>forEach\<close> bodies of \<^verbatim>\<open>extractRelatedCollections\<close>. Each compares with the
  singular name of the current collection, which is computed anew at every match, in the
  first body before the other tests and in the second after them.
\<close>

definition addSchemaReference :: "string \<Rightarrow> string list option \<Rightarrow> string \<Rightarrow> string list option" where
  "addSchemaReference ownName related found =
     (case related of
        None \<Rightarrow> None
      | Some names \<Rightarrow>
          (let singularName = replaceFirst (replaceFirst found ''Drx'' []) ''Schema'' [] in
           case toSingular (toPascalCase ownName) of
             None \<Rightarrow> None
           | Some own \<Rightarrow>
               if singularName \<noteq> own \<and> singularName \<noteq> ''File'' \<and> singularName \<noteq> ''ImageFile''
               then Some (setAdd names singularName) else Some names))"

definition addTypeReference :: "string \<Rightarrow> string list option \<Rightarrow> string \<Rightarrow> string list option" where
  "addTypeReference ownName related found =
     (case related of
        None \<Rightarrow> None
      | Some names \<Rightarrow>
          (let singularName = replaceFirst found ''Drs'' [] in
           if \<not> hasVariantSuffix singularName \<and> singularName \<noteq> ''File''
              \<and> singularName \<noteq> ''ImageFile'' then
             (case toSingular (toPascalCase ownName) of
                None \<Rightarrow> None
              | Some own \<Rightarrow> if singularName \<noteq> own then Some (setAdd names singularName)
                            else Some names)
           else Some names))"

definition extractRelatedCollections :: "GeneratedSchema \<Rightarrow> string list option" where
  "extractRelatedCollections result =
     (let fromSchema =
            (case schema result of
               None \<Rightarrow> Some []
             | Some text \<Rightarrow>
                 (case matchObjectBlock text of
                    None \<Rightarrow> Some []
                  | Some fieldDefinitions \<Rightarrow>
                      foldl (addSchemaReference (collectionName result)) (Some [])
                        (matchAll matchDrxAt 0 fieldDefinitions)))
      in (case type result of
            None \<Rightarrow> fromSchema
          | Some text \<Rightarrow>
              foldl (addTypeReference (collectionName result)) fromSchema
                (matchAll matchDrsAt 0 text)))"

text \<open>\<^verbatim>\<open>results.find(r => ...)\<close> in \<^verbatim>\<open>generateImportStatements\<close>: the callback computes both
  singular names of \<open>r\<close> before it compares. The outer \<open>None\<close> is a failure of \<^verbatim>\<open>toSingular\<close>.\<close>

fun findRelatedCollection :: "string \<Rightarrow> GeneratedSchema list \<Rightarrow> GeneratedSchema option option" where
  "findRelatedCollection singularName [] = Some None"
| "findRelatedCollection singularName (r # rs) =
     (case toSingular (toPascalCase (collectionName r)) of
        None \<Rightarrow> None
      | Some collectionSingular \<Rightarrow>
          (case toSingular (toPascalCase (replaceFirst (collectionName r) ''directus_'' [])) of
             None \<Rightarrow> None
           | Some collectionSingularWithoutPrefix \<Rightarrow>
               if collectionSingular = singularName
                  \<or> collectionSingularWithoutPrefix = singularName
               then Some (Some r)
               else findRelatedCollection singularName rs))"

definition importPath :: "bool \<Rightarrow> bool \<Rightarrow> string \<Rightarrow> string" where
  "importPath isSystemCollection isRelatedSystemCollection relatedFileName =
     (if isSystemCollection \<and> isRelatedSystemCollection
        then [CHR 0x27] @ ''./'' @ relatedFileName @ [CHR 0x27]
      else if isSystemCollection \<and> \<not> isRelatedSystemCollection
        then [CHR 0x27] @ ''../'' @ relatedFileName @ [CHR 0x27]
      else if \<not> isSystemCollection \<and> isRelatedSystemCollection
        then [CHR 0x27] @ ''./system/'' @ relatedFileName @ [CHR 0x27]
      else [CHR 0x27] @ ''./'' @ relatedFileName @ [CHR 0x27])"

text \<open>
  The body of the loop over the related names. The state is the set of import keys seen
  and the text so far. Both arms of the test on \<^verbatim>\<open>isCircular\<close> append the same line.
\<close>

definition importStep ::
  "GeneratedSchema \<Rightarrow> GeneratedSchema list \<Rightarrow> string list list \<Rightarrow> bool
     \<Rightarrow> (string list \<times> string) option \<Rightarrow> string \<Rightarrow> (string list \<times> string) option" where
  "importStep result results cycles isSystemCollection state singularName =
     (case state of
        None \<Rightarrow> None
      | Some (processedImports, importStatements) \<Rightarrow>
     (case findRelatedCollection singularName results of
        None \<Rightarrow> None
      | Some None \<Rightarrow> Some (processedImports, importStatements)
      | Some (Some relatedCollection) \<Rightarrow>
          (let relatedFileName = toKebabCase (collectionName relatedCollection);
               isRelatedSystemCollection =
                 startsWith (collectionName relatedCollection) ''directus_'';
               baseSingularName = replaceFirst singularName ''Directus'' [];
               schemaName =
                 (if isRelatedSystemCollection then ''DrxDirectus'' @ baseSingularName @ ''Schema''
                  else ''Drx'' @ baseSingularName @ ''Schema'');
               typeName =
                 (if isRelatedSystemCollection then ''DrsDirectus'' @ baseSingularName
                  else ''Drs'' @ baseSingularName)
           in case toSingular (toPascalCase (collectionName result)) of
                None \<Rightarrow> None
              | Some currentCollectionName \<Rightarrow>
                  (let isCircular =
                         isCircularDependency currentCollectionName singularName cycles;
                       importKey = schemaName @ '':'' @ relatedFileName
                   in if importKey \<notin> set processedImports then
                        Some (setAdd processedImports importKey,
                              importStatements
                              @ (if isCircular
                                 then ''import { '' @ schemaName @ '', type '' @ typeName
                                      @ '' } from ''
                                      @ importPath isSystemCollection isRelatedSystemCollection
                                          relatedFileName @ '';'' @ nl
                                 else ''import { '' @ schemaName @ '', type '' @ typeName
                                      @ '' } from ''
                                      @ importPath isSystemCollection isRelatedSystemCollection
                                          relatedFileName @ '';'' @ nl))
                      else Some (processedImports, importStatements)))))"

definition generateImportStatements ::
  "GeneratedSchema \<Rightarrow> GeneratedSchema list \<Rightarrow> string list list \<Rightarrow> bool \<Rightarrow> string option" where
  "generateImportStatements result results cycles isSystemCollection =
     (case extractRelatedCollections result of
        None \<Rightarrow> None
      | Some relatedCollections \<Rightarrow>
          map_option snd
            (foldl (importStep result results cycles isSystemCollection) (Some ([], []))
               relatedCollections))"

section \<open>Example descriptors\<close>

text \<open>Concrete inputs, used where a statement is evaluated.\<close>

definition exampleConfig :: ZodirectusConfig where
  "exampleConfig =
     \<lparr>collections = None, includeSystemCollections = False, customFieldMappings = (\<lambda>_. None)\<rparr>"

definition exampleParsers :: numberParsers where
  "exampleParsers = \<lparr>parseIntDecimal = (\<lambda>_. None), parseFloatText = (\<lambda>_. None)\<rparr>"

text \<open>A plain column: name, raw type, nullable, required.\<close>

definition column :: "string \<Rightarrow> string \<Rightarrow> bool \<Rightarrow> bool \<Rightarrow> DirectusField" where
  "column name rawType nullable req =
     \<lparr>field = name, field_type = rawType,
      field_schema = Some \<lparr>data_type = rawType, is_nullable = Some nullable,
                           foreign_key_table = None\<rparr>,
      field_meta = Some \<lparr>meta_collection = ''posts'', special = None, interface = None,
                         options = None, required = Some req\<rparr>\<rparr>"

text \<open>A field of the given name with an interface and special tags, and no column.\<close>

definition aliasField :: "string \<Rightarrow> string \<Rightarrow> string list \<Rightarrow> FieldOptions \<Rightarrow> DirectusField" where
  "aliasField name iface tags opts =
     \<lparr>field = name, field_type = ''alias'', field_schema = None,
      field_meta = Some \<lparr>meta_collection = ''posts'', special = Some tags,
                         interface = Some iface, options = Some opts, required = None\<rparr>\<rparr>"

text \<open>A tag field whose name contains \<^verbatim>\<open>date\<close>, and a radio field whose name does.\<close>

definition updateTags :: DirectusField where
  "updateTags =
     aliasField ''update_tags'' ''tags'' [''cast-json'']
       (emptyOptions\<lparr>opt_presets := Some [''news'', ''draft'']\<rparr>)"

definition dateFormat :: DirectusField where
  "dateFormat =
     aliasField ''date_format'' ''select-radio'' []
       (emptyOptions\<lparr>opt_choices := Some [ChoiceObj (JStr ''iso'') (JStr ''ISO'') None,
                                          ChoiceObj (JStr ''us'') (JStr ''US'') None]\<rparr>)"

text \<open>A divider that also carries a relation tag.\<close>

definition dividerAuthor :: DirectusField where
  "dividerAuthor = aliasField ''divider-author'' ''presentation'' [''m2o''] emptyOptions"

definition posts :: DirectusCollectionWithFields where
  "posts =
     \<lparr>collection = ''posts'',
      field_list = [column ''title'' ''varchar'' False True,
                    column ''summary'' ''text'' True False,
                    column ''slug'' ''varchar'' False False,
                    column ''user_created'' ''uuid'' True False]\<rparr>"

text \<open>A regular and a system artifact that reference each other, a regular artifact that
  references the regular one, and a system artifact that references the system one.\<close>

definition postsArtifact :: GeneratedSchema where
  "postsArtifact =
     \<lparr>collectionName = ''posts'',
      schema = Some ''export const DrxPostSchema = z.object({ author: DrxDirectusUserSchema });'',
      type = None\<rparr>"

definition usersArtifact :: GeneratedSchema where
  "usersArtifact =
     \<lparr>collectionName = ''directus_users'',
      schema = Some ''export const DrxDirectusUserSchema = z.object({ post: DrxPostSchema });'',
      type = None\<rparr>"

definition commentsArtifact :: GeneratedSchema where
  "commentsArtifact =
     \<lparr>collectionName = ''comments'',
      schema = Some ''export const DrxCommentSchema = z.object({ post: DrxPostSchema });'',
      type = None\<rparr>"

definition rolesArtifact :: GeneratedSchema where
  "rolesArtifact =
     \<lparr>collectionName = ''directus_roles'',
      schema = Some ''export const DrxDirectusRoleSchema = z.object({ users: z.array(DrxDirectusUserSchema) });'',
      type = None\<rparr>"

section \<open>Invariants used in the proofs\<close>

text \<open>What every dependency set built for the entity \<open>cur\<close> satisfies, and every graph.\<close>

definition cleanFor :: "string \<Rightarrow> string list \<Rightarrow> bool" where
  "cleanFor cur deps = (\<forall>d \<in> set deps. \<not> hasVariantSuffix d \<and> d \<noteq> cur)"

definition cleanGraph :: "depGraph \<Rightarrow> bool" where
  "cleanGraph g = (\<forall>(name, deps) \<in> set g. cleanFor name deps)"

text \<open>
  The import line for the name \<open>singularName\<close> found in the text of the current artifact and
  the artifact \<open>related\<close> it resolves to, as the path rule words it: the sibling path when
  the current and the imported collection are both system or both regular, the parent path
  from a system collection to a regular one, and the subfolder path from a regular
  collection to a system one.
\<close>

definition importLineFor :: "bool \<Rightarrow> string \<Rightarrow> GeneratedSchema \<Rightarrow> string" where
  "importLineFor isSystemCollection singularName related =
     ''import { ''
     @ (if startsWith (collectionName related) ''directus_''
        then ''DrxDirectus'' @ replaceFirst singularName ''Directus'' [] @ ''Schema''
        else ''Drx'' @ replaceFirst singularName ''Directus'' [] @ ''Schema'')
     @ '', type ''
     @ (if startsWith (collectionName related) ''directus_''
        then ''DrsDirectus'' @ replaceFirst singularName ''Directus'' []
        else ''Drs'' @ replaceFirst singularName ''Directus'' [])
     @ '' } from '' @ [CHR 0x27]
     @ (if isSystemCollection = startsWith (collectionName related) ''directus_''
        then ''./''
        else if isSystemCollection then ''../'' else ''./system/'')
     @ toKebabCase (collectionName related) @ [CHR 0x27] @ '';'' @ nl"

text \<open>
  What holds of the state of the loop over the related names: the text is the import lines
  of a list of pairs, each a name of \<open>names\<close> with the artifact it resolves to, and the keys
  seen are the keys of these pairs, in this order and without repetition.
\<close>

definition importKeyFor :: "string \<Rightarrow> GeneratedSchema \<Rightarrow> string" where
  "importKeyFor singularName related =
     (if startsWith (collectionName related) ''directus_''
      then ''DrxDirectus'' @ replaceFirst singularName ''Directus'' [] @ ''Schema''
      else ''Drx'' @ replaceFirst singularName ''Directus'' [] @ ''Schema'')
     @ '':'' @ toKebabCase (collectionName related)"

definition importsInv ::
  "bool \<Rightarrow> GeneratedSchema list \<Rightarrow> string list \<Rightarrow> (string \<times> GeneratedSchema) list
     \<Rightarrow> string list \<times> string \<Rightarrow> bool" where
  "importsInv isSystemCollection results names pairs state =
     (snd state = concat (map (\<lambda>(n, r). importLineFor isSystemCollection n r) pairs)
      \<and> fst state = map (\<lambda>(n, r). importKeyFor n r) pairs
      \<and> distinct (fst state)
      \<and> (\<forall>(n, r) \<in> set pairs.
            n \<in> set names \<and> r \<in> set results
            \<and> findRelatedCollection n results = Some (Some r)))"

text \<open>
  For the depth-first search: two entities that depend on each other; a recorded path that
  closes on itself and holds both; an entity whose visit is over; and the invariant that
  every entity whose visit is over has such a path recorded with each entity it is mutually
  dependent with.
\<close>

definition mutual :: "depGraph \<Rightarrow> string \<Rightarrow> string \<Rightarrow> bool" where
  "mutual g a b = (b \<in> set (neighborsOf g a) \<and> a \<in> set (neighborsOf g b))"

text \<open>A path of the graph: every name on it has the next one in its dependency set.\<close>

fun isPath :: "depGraph \<Rightarrow> string list \<Rightarrow> bool" where
  "isPath g [] = True"
| "isPath g [x] = True"
| "isPath g (x # y # zs) = (y \<in> set (neighborsOf g x) \<and> isPath g (y # zs))"

definition closedPath :: "depGraph \<Rightarrow> string list \<Rightarrow> bool" where
  "closedPath g cycle = (2 \<le> length cycle \<and> hd cycle = last cycle \<and> isPath g cycle)"

definition closesCycle :: "string \<Rightarrow> string \<Rightarrow> string list \<Rightarrow> bool" where
  "closesCycle a b cycle =
     (a \<in> set cycle \<and> b \<in> set cycle \<and> length cycle \<ge> 2 \<and> hd cycle = last cycle)"

definition recorded :: "string \<Rightarrow> string \<Rightarrow> dfsState \<Rightarrow> bool" where
  "recorded a b st = (\<exists>cycle \<in> set (circularDeps st). closesCycle a b cycle)"

definition finished :: "dfsState \<Rightarrow> string \<Rightarrow> bool" where
  "finished st x = (x \<in> set (visited st) \<and> x \<notin> set (recursionStack st))"

definition dfsInv :: "depGraph \<Rightarrow> dfsState \<Rightarrow> bool" where
  "dfsInv g st =
     (set (recursionStack st) \<subseteq> set (visited st)
      \<and> (\<forall>x y. finished st x \<and> mutual g x y \<longrightarrow> recorded x y st))"

definition dfsPost :: "depGraph \<Rightarrow> dfsState \<Rightarrow> dfsState \<Rightarrow> bool" where
  "dfsPost g st st' =
     (dfsInv g st'
      \<and> set (recursionStack st') = set (recursionStack st)
      \<and> set (visited st) \<subseteq> set (visited st')
      \<and> set (circularDeps st) \<subseteq> set (circularDeps st'))"

section \<open>Properties of the naming engine\<close>

lemma irregular_keys_short: "map_of irregularPlurals w = Some v \<Longrightarrow> length w \<le> 10"
  by (auto simp: irregularPlurals_def split: if_splits)

lemma inherited_keys_short: "w \<in> set inheritedKeys \<Longrightarrow> length w \<le> 11"
  by (auto simp: inheritedKeys_def)

lemma startsWith_append: "startsWith (p @ s) p"
  by (simp add: startsWith_def)

lemma endsWith_append: "endsWith (s @ p) p"
  by (simp add: endsWith_def)

lemma directusGroupAt_shape:
  assumes "isUpper u" "\<forall>c \<in> set ls. isLower c"
  shows "directusGroupAt (''Directus'' @ u # ls) = Some (u # ls)"
  using assms by (simp add: directusGroupAt_def startsWith_def)

text \<open>
  A word made of the reserved prefix, one capital and lower-case letters ending in
  \<^verbatim>\<open>ies\<close> is long enough to miss the table of irregular words; the rule for the reserved
  prefix matches it at its first character and rewrites the last three letters.
\<close>

lemma toSingular_directus_ies:
  assumes u: "isUpper u" and ls: "\<forall>c \<in> set ls. isLower c"
  shows "toSingular (''Directus'' @ u # ls @ ''ies'') = Some (''Directus'' @ u # ls @ ''y'')"
proof -
  let ?w = "''Directus'' @ u # ls @ ''ies''"
  have lenl: "length (toLowerCase ?w) \<ge> 12" unfolding toLowerCase_def by simp
  have irr: "map_of irregularPlurals (toLowerCase ?w) = None"
  proof (cases "map_of irregularPlurals (toLowerCase ?w)")
    case (Some v)
    from irregular_keys_short[OF this] lenl show ?thesis by simp
  qed simp
  have inh: "toLowerCase ?w \<notin> set inheritedKeys"
    using inherited_keys_short[of "toLowerCase ?w"] lenl by auto
  have e3: "endsWith ?w ''ies''"
    using endsWith_append[of "''Directus'' @ u # ls" "''ies''"] by simp
  have low: "\<forall>c \<in> set (ls @ ''ies''). isLower c"
    using ls by (auto simp: isLower_def lowers_def)
  have grp: "directusGroupAt ?w = Some (u # ls @ ''ies'')"
    using directusGroupAt_shape[OF u low] by simp
  have m: "matchDirectusSuffix ?w = Some (0, u # ls @ ''ies'')"
    using grp by simp
  have sw: "startsWith ?w ''Directus''"
    using startsWith_append[of "''Directus''" "u # ls @ ''ies''"] by simp
  have ds: "directusSingular ?w = Some (''Directus'' @ u # ls @ ''y'')"
    unfolding directusSingular_def using sw e3 m by (simp add: dropLast_def)
  show ?thesis
    unfolding toSingular_def Let_def using irr inh ds by simp
qed

text \<open>
  Claim C9. \<^verbatim>\<open>toSingular("DirectusPolicies")\<close> is \<^verbatim>\<open>"DirectusPolicy"\<close>; and for every word made
  of the reserved prefix \<^verbatim>\<open>Directus\<close> and a trailing segment (one capital, then lower-case
  letters) that ends in \<^verbatim>\<open>ies\<close>, the result keeps the prefix and the segment as they are,
  but for the final \<^verbatim>\<open>ies\<close>, which becomes \<^verbatim>\<open>y\<close>.
\<close>

theorem toSingular_DirectusPolicies:
  "toSingular ''DirectusPolicies'' = Some ''DirectusPolicy''
   \<and> (\<forall>u ls. isUpper u \<and> (\<forall>c \<in> set ls. isLower c) \<longrightarrow>
         toSingular (''Directus'' @ u # ls @ ''ies'') = Some (''Directus'' @ u # ls @ ''y''))"
proof
  show "toSingular ''DirectusPolicies'' = Some ''DirectusPolicy''"
    by code_simp
  show "\<forall>u ls. isUpper u \<and> (\<forall>c \<in> set ls. isLower c) \<longrightarrow>
         toSingular (''Directus'' @ u # ls @ ''ies'') = Some (''Directus'' @ u # ls @ ''y'')"
    using toSingular_directus_ies by blast
qed

theorem toSingular_DirectusPolicies_witness:
  "toSingular ''DirectusCategories'' = Some ''DirectusCategory''"
proof -
  have "isUpper CHR ''C'' \<and> (\<forall>c \<in> set ''ategor''. isLower c)"
    by (simp add: isUpper_def isLower_def uppers_def lowers_def)
  then have "toSingular (''Directus'' @ CHR ''C'' # ''ategor'' @ ''ies'')
             = Some (''Directus'' @ CHR ''C'' # ''ategor'' @ ''y'')"
    using toSingular_DirectusPolicies by blast
  then show ?thesis by simp
qed

section \<open>Properties of the dependency graph\<close>

lemma cleanFor_setAdd:
  "cleanFor cur deps \<Longrightarrow> \<not> hasVariantSuffix d \<Longrightarrow> d \<noteq> cur \<Longrightarrow> cleanFor cur (setAdd deps d)"
  by (auto simp: cleanFor_def setAdd_def)

lemma cleanFor_addSchema:
  "cleanFor cur deps \<Longrightarrow> cleanFor cur (addSchemaDependency cur deps m)"
  by (simp add: addSchemaDependency_def Let_def cleanFor_setAdd)

lemma cleanFor_addType:
  "cleanFor cur deps \<Longrightarrow> cleanFor cur (addTypeDependency cur deps m)"
  by (simp add: addTypeDependency_def Let_def cleanFor_setAdd)

lemma cleanFor_foldl_schema:
  "cleanFor cur deps \<Longrightarrow> cleanFor cur (foldl (addSchemaDependency cur) deps ms)"
  by (induction ms arbitrary: deps) (simp_all add: cleanFor_addSchema)

lemma cleanFor_foldl_type:
  "cleanFor cur deps \<Longrightarrow> cleanFor cur (foldl (addTypeDependency cur) deps ms)"
  by (induction ms arbitrary: deps) (simp_all add: cleanFor_addType)

lemma cleanFor_resultDependencies: "cleanFor cur (resultDependencies cur r)"
proof -
  have e: "cleanFor cur []" by (simp add: cleanFor_def)
  show ?thesis
    unfolding resultDependencies_def Let_def
    by (auto split: option.splits intro!: cleanFor_foldl_schema cleanFor_foldl_type e)
qed

lemma cleanGraph_mapSet:
  "cleanGraph g \<Longrightarrow> cleanFor k v \<Longrightarrow> cleanGraph (mapSet g k v)"
  by (auto simp: cleanGraph_def mapSet_def split: if_splits)

lemma cleanGraph_build:
  "buildDependencyGraphFrom g rs = Some g' \<Longrightarrow> cleanGraph g \<Longrightarrow> cleanGraph g'"
proof (induction rs arbitrary: g)
  case Nil
  then show ?case by simp
next
  case (Cons r rs)
  from Cons.prems(1) obtain cur where
    cur: "toSingular (toPascalCase (collectionName r)) = Some cur"
    by (auto split: option.splits)
  let ?deps = "resultDependencies cur r"
  let ?g = "if length ?deps > 0 then mapSet g cur ?deps else g"
  have step: "buildDependencyGraphFrom ?g rs = Some g'"
    using Cons.prems(1) cur by (simp add: Let_def)
  have "cleanGraph ?g"
    using Cons.prems(2) cleanGraph_mapSet[OF Cons.prems(2) cleanFor_resultDependencies[of cur r]]
    by simp
  from Cons.IH[OF step this] show ?case .
qed

text \<open>
  Claim C2, amended. In the graph that \<open>buildDependencyGraph\<close> returns, no dependency set
  contains the singular name of its own entity, and none contains a name that ends in
  \<^verbatim>\<open>Create\<close>, \<^verbatim>\<open>Update\<close> or \<^verbatim>\<open>Get\<close>. (The names \<^verbatim>\<open>File\<close> and \<^verbatim>\<open>ImageFile\<close> are not kept out.)
\<close>

theorem buildDependencyGraph_excludes:
  assumes "buildDependencyGraph results = Some graph"
  shows "\<forall>(name, deps) \<in> set graph.
           name \<notin> set deps
           \<and> (\<forall>d \<in> set deps. \<not> endsWith d ''Create'' \<and> \<not> endsWith d ''Update''
                                \<and> \<not> endsWith d ''Get'')"
proof -
  have "cleanGraph []" by (simp add: cleanGraph_def)
  with assms have "cleanGraph graph"
    unfolding buildDependencyGraph_def by (rule cleanGraph_build)
  then show ?thesis
    unfolding cleanGraph_def cleanFor_def hasVariantSuffix_def by fast
qed

theorem buildDependencyGraph_excludes_witness:
  "buildDependencyGraph
     [\<lparr>collectionName = ''users'',
       schema = Some ''export const DrxUserSchema = z.object({ posts: DrxPostSchema });'',
       type = Some ''export type DrsUserCreate = Omit<DrsUser, id>;''\<rparr>,
      \<lparr>collectionName = ''posts'',
       schema = Some ''export const DrxPostSchema = z.object({ author: DrxUserSchema });'',
       type = None\<rparr>]
     = Some [(''User'', [''Post'']), (''Post'', [''User''])]
   \<and> list_all (\<lambda>(name, deps). name \<notin> set deps
          \<and> (\<forall>d \<in> set deps. \<not> endsWith d ''Create'' \<and> \<not> endsWith d ''Update''
                               \<and> \<not> endsWith d ''Get''))
        [(''User'', [''Post'']), (''Post'', [''User''])]"
proof -
  have a: "buildDependencyGraph
     [\<lparr>collectionName = ''users'',
       schema = Some ''export const DrxUserSchema = z.object({ posts: DrxPostSchema });'',
       type = Some ''export type DrsUserCreate = Omit<DrsUser, id>;''\<rparr>,
      \<lparr>collectionName = ''posts'',
       schema = Some ''export const DrxPostSchema = z.object({ author: DrxUserSchema });'',
       type = None\<rparr>]
     = Some [(''User'', [''Post'']), (''Post'', [''User''])]"
    by code_simp
  show ?thesis
    using a buildDependencyGraph_excludes[OF a] unfolding list_all_iff by blast
qed

text \<open>
  The claim as it stands fails on an artifact that references the shared file schema:
  \<^verbatim>\<open>File\<close> is in its dependency set.
\<close>

theorem buildDependencyGraph_counterexample:
  "buildDependencyGraph
     [\<lparr>collectionName = ''posts'',
       schema = Some ''export const DrxPostSchema = z.object({ cover: DrxFileSchema });'',
       type = Some ''export interface DrsPost { cover: DrsImageFile }''\<rparr>]
     = Some [(''Post'', [''File'', ''ImageFile''])]"
  by code_simp

section \<open>Properties of the cycle detection\<close>

lemma set_setAdd [simp]: "set (setAdd xs x) = insert x (set xs)"
  by (auto simp: setAdd_def)

lemma set_setDelete [simp]: "set (setDelete xs x) = set xs - {x}"
  by (auto simp: setDelete_def)

text \<open>The search only adds to the visited set.\<close>

lemma dfs_visited_mono:
  "dfs n g node path st = Some st' \<Longrightarrow> set (visited st) \<subseteq> set (visited st')"
  "visitNeighbors n g nbrs path st = Some st' \<Longrightarrow> set (visited st) \<subseteq> set (visited st')"
proof (induction n g node path st and n g nbrs path st arbitrary: st' and st'
       rule: dfs_visitNeighbors.induct)
  case (1 graph node path st)
  then show ?case by simp
next
  case (2 n graph node path st)
  from "2.prems" obtain st2 where
    l: "visitNeighbors n graph (neighborsOf graph node) (path @ [node])
          (st\<lparr>visited := setAdd (visited st) node,
              recursionStack := setAdd (recursionStack st) node\<rparr>) = Some st2"
    and e: "st' = st2\<lparr>recursionStack := setDelete (recursionStack st2) node\<rparr>"
    by (auto split: option.splits)
  from "2.IH"[OF l] e show ?case by auto
next
  case (3 n graph path st)
  then show ?case by simp
next
  case (4 n graph neighbor rest path st)
  show ?case
  proof (cases "neighbor \<notin> set (visited st)")
    case True
    with "4.prems" obtain st1 where
      d: "dfs n graph neighbor path st = Some st1"
      and l: "visitNeighbors n graph rest path st1 = Some st'"
      by (auto split: option.splits)
    from "4.IH"(1)[OF True d] "4.IH"(2)[OF True d l] show ?thesis by blast
  next
    case False
    show ?thesis
    proof (cases "neighbor \<in> set (recursionStack st)")
      case True
      with False "4.prems" have
        l: "visitNeighbors n graph rest path
              (st\<lparr>circularDeps := circularDeps st @ [slice path (indexOf path neighbor) @ [neighbor]]\<rparr>)
            = Some st'"
        by simp
      from "4.IH"(3)[OF False True l] show ?thesis by simp
    next
      case nb: False
      with False "4.prems" have l: "visitNeighbors n graph rest path st = Some st'" by simp
      from "4.IH"(4)[OF False nb l] show ?thesis .
    qed
  qed
qed

text \<open>
  The search returns: every call of \<open>dfs\<close> visits a node that was not visited, so a bound
  that covers the nodes not yet visited is never used up.
\<close>

lemma neighborsOf_nodes: "set (neighborsOf g v) \<subseteq> set (graphNodes g)"
proof (cases "map_of g v")
  case None
  then show ?thesis by (simp add: neighborsOf_def)
next
  case (Some ns)
  then have "(v, ns) \<in> set g" by (rule map_of_SomeD)
  then have "set ns \<subseteq> set (concat (map snd g))" by force
  with Some show ?thesis by (auto simp: neighborsOf_def graphNodes_def)
qed

lemma unvisited_card_visit:
  assumes "card (set nodes - set vs) \<le> Suc n" "node \<in> set nodes" "node \<notin> set vs"
  shows "card (set nodes - insert node (set vs)) \<le> n"
proof -
  have mem: "node \<in> set nodes - set vs" using assms(2,3) by simp
  have "set nodes - insert node (set vs) = (set nodes - set vs) - {node}" by auto
  then have "card (set nodes - insert node (set vs)) = card (set nodes - set vs) - 1"
    using mem by (simp add: card_Diff_singleton)
  with assms(1) show ?thesis by simp
qed

lemma unvisited_card_mono:
  assumes "card (set nodes - set vs) \<le> n" "set vs \<subseteq> set vs'"
  shows "card (set nodes - set vs') \<le> n"
proof -
  have "set nodes - set vs' \<subseteq> set nodes - set vs" using assms(2) by auto
  then have "card (set nodes - set vs') \<le> card (set nodes - set vs)"
    by (intro card_mono) simp_all
  with assms(1) show ?thesis by simp
qed

lemma dfs_returns:
  "card (set (graphNodes g) - set (visited st)) \<le> n \<Longrightarrow> node \<in> set (graphNodes g)
     \<Longrightarrow> node \<notin> set (visited st) \<Longrightarrow> \<exists>st'. dfs n g node path st = Some st'"
  "card (set (graphNodes g) - set (visited st)) \<le> n \<Longrightarrow> set nbrs \<subseteq> set (graphNodes g)
     \<Longrightarrow> \<exists>st'. visitNeighbors n g nbrs path st = Some st'"
proof (induction n g node path st and n g nbrs path st rule: dfs_visitNeighbors.induct)
  case (1 graph node path st)
  then have mem: "node \<in> set (graphNodes graph) - set (visited st)" by simp
  have "finite (set (graphNodes graph) - set (visited st))" by simp
  with "1.prems"(1) have "set (graphNodes graph) - set (visited st) = {}"
    by (simp only: le_zero_eq card_0_eq)
  with mem show ?case by blast
next
  case (2 n graph node path st)
  let ?st1 = "st\<lparr>visited := setAdd (visited st) node,
                  recursionStack := setAdd (recursionStack st) node\<rparr>"
  have c: "card (set (graphNodes graph) - set (visited ?st1)) \<le> n"
    using unvisited_card_visit[OF "2.prems"] by simp
  from "2.IH"[OF c neighborsOf_nodes] obtain st2 where
    "visitNeighbors n graph (neighborsOf graph node) (path @ [node]) ?st1 = Some st2" by blast
  then show ?case by simp
next
  case (3 n graph path st)
  then show ?case by simp
next
  case (4 n graph neighbor rest path st)
  have nb: "neighbor \<in> set (graphNodes graph)" and rest: "set rest \<subseteq> set (graphNodes graph)"
    using "4.prems"(2) by simp_all
  show ?case
  proof (cases "neighbor \<notin> set (visited st)")
    case True
    from "4.IH"(1)[OF True "4.prems"(1) nb True] obtain st1 where
      d: "dfs n graph neighbor path st = Some st1" by blast
    have c: "card (set (graphNodes graph) - set (visited st1)) \<le> n"
      using unvisited_card_mono[OF "4.prems"(1) dfs_visited_mono(1)[OF d]] .
    from "4.IH"(2)[OF True d c rest] obtain st' where
      "visitNeighbors n graph rest path st1 = Some st'" by blast
    with True d show ?thesis by simp
  next
    case False
    show ?thesis
    proof (cases "neighbor \<in> set (recursionStack st)")
      case True
      let ?st1 = "st\<lparr>circularDeps :=
                      circularDeps st @ [slice path (indexOf path neighbor) @ [neighbor]]\<rparr>"
      have c: "card (set (graphNodes graph) - set (visited ?st1)) \<le> n"
        using "4.prems"(1) by simp
      from "4.IH"(3)[OF False True c rest] False True show ?thesis by simp
    next
      case nos: False
      from "4.IH"(4)[OF False nos "4.prems"(1) rest] False nos show ?thesis by simp
    qed
  qed
qed

lemma visitRoots_visited_mono:
  "visitRoots n g roots st = Some st' \<Longrightarrow> set (visited st) \<subseteq> set (visited st')"
proof (induction roots arbitrary: st)
  case Nil
  then show ?case by simp
next
  case (Cons r roots)
  show ?case
  proof (cases "r \<notin> set (visited st)")
    case True
    with Cons.prems obtain st1 where d: "dfs n g r [] st = Some st1"
      and l: "visitRoots n g roots st1 = Some st'"
      by (auto split: option.splits)
    from dfs_visited_mono(1)[OF d] Cons.IH[OF l] show ?thesis by blast
  next
    case False
    with Cons.prems Cons.IH show ?thesis by simp
  qed
qed

lemma visitRoots_returns:
  "card (set (graphNodes g) - set (visited st)) \<le> n \<Longrightarrow> set roots \<subseteq> set (graphNodes g)
     \<Longrightarrow> \<exists>st'. visitRoots n g roots st = Some st'"
proof (induction roots arbitrary: st)
  case Nil
  then show ?case by simp
next
  case (Cons r roots)
  have r: "r \<in> set (graphNodes g)" and rs: "set roots \<subseteq> set (graphNodes g)"
    using Cons.prems(2) by simp_all
  show ?case
  proof (cases "r \<notin> set (visited st)")
    case True
    from dfs_returns(1)[OF Cons.prems(1) r True] obtain st1 where
      d: "dfs n g r [] st = Some st1" by blast
    have c: "card (set (graphNodes g) - set (visited st1)) \<le> n"
      using unvisited_card_mono[OF Cons.prems(1) dfs_visited_mono(1)[OF d]] .
    from Cons.IH[OF c rs] True d show ?thesis by simp
  next
    case False
    with Cons.IH[OF Cons.prems(1) rs] show ?thesis by simp
  qed
qed

lemma detectCircularDependencies_returns:
  "\<exists>cycles. detectCircularDependencies g = Some cycles"
proof -
  let ?init = "\<lparr>visited = [], recursionStack = [], circularDeps = []\<rparr>"
  have "card (set (graphNodes g) - set (visited ?init)) \<le> length (graphNodes g)"
    by (simp add: card_length)
  moreover have "set (map fst g) \<subseteq> set (graphNodes g)"
    by (auto simp: graphNodes_def)
  ultimately obtain st' where
    "visitRoots (length (graphNodes g)) g (map fst g) ?init = Some st'"
    using visitRoots_returns by blast
  then show ?thesis by (simp add: detectCircularDependencies_def)
qed

text \<open>
  The search records a closed path for every pair of mutually dependent entities: when the
  visit of the first of them is over, the other one was met, either on the stack (a back
  edge, recorded at once) or not yet visited (and then its own visit met the first one on
  the stack) or with its visit over (and then the invariant had the path already).
\<close>

lemma indexOf_found:
  "x \<in> set xs \<Longrightarrow> 0 \<le> indexOf xs x \<and> nat (indexOf xs x) < length xs
                    \<and> xs ! nat (indexOf xs x) = x"
proof (induction xs)
  case Nil
  then show ?case by simp
next
  case (Cons y ys)
  show ?case
  proof (cases "y = x")
    case True
    then show ?thesis by simp
  next
    case False
    with Cons.prems have "x \<in> set ys" by simp
    from Cons.IH[OF this] False show ?thesis
      by (simp add: Let_def nat_add_distrib)
  qed
qed

lemma back_edge_cycle:
  assumes "nb \<in> set path"
  shows "closesCycle (last path) nb (slice path (indexOf path nb) @ [nb])"
proof -
  let ?k = "nat (indexOf path nb)"
  from indexOf_found[OF assms] have i: "0 \<le> indexOf path nb" and k: "?k < length path"
    and at: "path ! ?k = nb" by simp_all
  have sl: "slice path (indexOf path nb) = drop ?k path"
    using i by (simp add: slice_def)
  have ne: "drop ?k path \<noteq> []" using k by simp
  have h: "hd (drop ?k path) = nb" using k at by (simp add: hd_drop_conv_nth)
  have l: "last (drop ?k path) = last path" using k by simp
  have "last path \<in> set (drop ?k path)" using ne l by (metis last_in_set)
  then show ?thesis
    unfolding closesCycle_def sl using ne h
    by (cases "drop ?k path") auto
qed

lemma closesCycle_sym: "closesCycle a b c \<Longrightarrow> closesCycle b a c"
  by (auto simp: closesCycle_def)

lemma recorded_sym: "recorded a b st \<Longrightarrow> recorded b a st"
  unfolding recorded_def using closesCycle_sym by blast

lemma recorded_mono:
  "recorded a b st \<Longrightarrow> set (circularDeps st) \<subseteq> set (circularDeps st') \<Longrightarrow> recorded a b st'"
  unfolding recorded_def by blast

lemma mutual_sym: "mutual g a b \<Longrightarrow> mutual g b a"
  by (simp add: mutual_def)

lemma dfsPost_trans:
  "dfsPost g st st1 \<Longrightarrow> dfsPost g st1 st2 \<Longrightarrow> dfsPost g st st2"
  unfolding dfsPost_def by auto

lemma dfsPost_refl: "dfsInv g st \<Longrightarrow> dfsPost g st st"
  unfolding dfsPost_def by simp

lemma dfs_invariant:
  "dfs n g node path st = Some st' \<Longrightarrow> dfsInv g st \<Longrightarrow> set path = set (recursionStack st)
     \<Longrightarrow> node \<notin> set (visited st) \<Longrightarrow> dfsPost g st st' \<and> node \<in> set (visited st')"
  "visitNeighbors n g nbrs path st = Some st' \<Longrightarrow> dfsInv g st
     \<Longrightarrow> set path = set (recursionStack st) \<Longrightarrow> path \<noteq> []
     \<Longrightarrow> dfsPost g st st'
         \<and> (\<forall>y \<in> set nbrs. y \<in> set (visited st')
                \<and> (mutual g (last path) y \<longrightarrow> recorded (last path) y st'))"
proof (induction n g node path st and n g nbrs path st arbitrary: st' and st'
       rule: dfs_visitNeighbors.induct)
  case (1 graph node path st)
  then show ?case by simp
next
  case (2 n graph node path st)
  let ?st1 = "st\<lparr>visited := setAdd (visited st) node,
                  recursionStack := setAdd (recursionStack st) node\<rparr>"
  from "2.prems"(1) obtain st2 where
    l: "visitNeighbors n graph (neighborsOf graph node) (path @ [node]) ?st1 = Some st2"
    and e: "st' = st2\<lparr>recursionStack := setDelete (recursionStack st2) node\<rparr>"
    by (auto split: option.splits)
  have sub: "set (recursionStack st) \<subseteq> set (visited st)"
    and J: "\<And>x y. finished st x \<Longrightarrow> mutual graph x y \<Longrightarrow> recorded x y st"
    using "2.prems"(2) unfolding dfsInv_def by blast+
  have nost: "node \<notin> set (recursionStack st)" using sub "2.prems"(4) by blast
  have inv1: "dfsInv graph ?st1"
    unfolding dfsInv_def
  proof (intro conjI allI impI)
    show "set (recursionStack ?st1) \<subseteq> set (visited ?st1)" using sub by auto
  next
    fix x y assume a: "finished ?st1 x \<and> mutual graph x y"
    then have "finished st x" unfolding finished_def by auto
    with a J have "recorded x y st" by blast
    then show "recorded x y ?st1" unfolding recorded_def by simp
  qed
  have sp: "set (path @ [node]) = set (recursionStack ?st1)"
    using "2.prems"(3) by simp
  from "2.IH"[OF l inv1 sp] have
    post: "dfsPost graph ?st1 st2"
    and nbs: "\<And>y. y \<in> set (neighborsOf graph node) \<Longrightarrow>
                y \<in> set (visited st2) \<and> (mutual graph node y \<longrightarrow> recorded node y st2)"
    by simp_all
  from post have inv2: "dfsInv graph st2"
    and st2: "set (recursionStack st2) = insert node (set (recursionStack st))"
    and v2: "insert node (set (visited st)) \<subseteq> set (visited st2)"
    and c2: "set (circularDeps st) \<subseteq> set (circularDeps st2)"
    unfolding dfsPost_def by simp_all
  have sub2: "set (recursionStack st2) \<subseteq> set (visited st2)"
    and J2: "\<And>x y. finished st2 x \<Longrightarrow> mutual graph x y \<Longrightarrow> recorded x y st2"
    using inv2 unfolding dfsInv_def by blast+
  have stk: "set (recursionStack st') = set (recursionStack st)"
    using e st2 nost by auto
  have vis: "set (visited st') = set (visited st2)" using e by simp
  have cyc: "circularDeps st' = circularDeps st2" using e by simp
  have inv': "dfsInv graph st'"
    unfolding dfsInv_def
  proof (intro conjI allI impI)
    show "set (recursionStack st') \<subseteq> set (visited st')"
      using stk vis sub v2 by blast
  next
    fix x y assume a: "finished st' x \<and> mutual graph x y"
    show "recorded x y st'"
    proof (cases "x = node")
      case True
      from a True have "y \<in> set (neighborsOf graph node)" by (simp add: mutual_def)
      from nbs[OF this] a True have "recorded node y st2" by blast
      then show ?thesis using True cyc unfolding recorded_def by simp
    next
      case False
      from a False have "finished st2 x"
        unfolding finished_def using stk st2 vis by auto
      with a J2 have "recorded x y st2" by blast
      then show ?thesis using cyc unfolding recorded_def by simp
    qed
  qed
  show ?case
    unfolding dfsPost_def using inv' stk vis v2 c2 cyc by auto
next
  case (3 n graph path st)
  then show ?case by (simp add: dfsPost_refl)
next
  case (4 n graph neighbor rest path st)
  let ?cur = "last path"
  have sub: "set (recursionStack st) \<subseteq> set (visited st)"
    and J: "\<And>x y. finished st x \<Longrightarrow> mutual graph x y \<Longrightarrow> recorded x y st"
    using "4.prems"(2) unfolding dfsInv_def by blast+
  show ?case
  proof (cases "neighbor \<notin> set (visited st)")
    case True
    with "4.prems"(1) obtain st1 where
      d: "dfs n graph neighbor path st = Some st1"
      and l: "visitNeighbors n graph rest path st1 = Some st'"
      by (auto split: option.splits)
    from "4.IH"(1)[OF True d "4.prems"(2,3) True] have
      p1: "dfsPost graph st st1" and v1: "neighbor \<in> set (visited st1)" by simp_all
    from p1 have inv1: "dfsInv graph st1"
      and s1: "set (recursionStack st1) = set (recursionStack st)"
      unfolding dfsPost_def by simp_all
    have sp1: "set path = set (recursionStack st1)" using "4.prems"(3) s1 by simp
    from "4.IH"(2)[OF True d l inv1 sp1 "4.prems"(4)] have
      p2: "dfsPost graph st1 st'"
      and r: "\<forall>y \<in> set rest. y \<in> set (visited st')
                \<and> (mutual graph ?cur y \<longrightarrow> recorded ?cur y st')"
      by simp_all
    have fin: "finished st1 neighbor"
      unfolding finished_def using v1 s1 sub True by blast
    have J1: "\<And>x y. finished st1 x \<Longrightarrow> mutual graph x y \<Longrightarrow> recorded x y st1"
      using inv1 unfolding dfsInv_def by blast
    have grow: "set (visited st1) \<subseteq> set (visited st')"
      "set (circularDeps st1) \<subseteq> set (circularDeps st')"
      using p2 unfolding dfsPost_def by simp_all
    have here: "neighbor \<in> set (visited st')
                 \<and> (mutual graph ?cur neighbor \<longrightarrow> recorded ?cur neighbor st')"
    proof (intro conjI impI)
      show "neighbor \<in> set (visited st')" using v1 grow(1) by blast
    next
      assume "mutual graph ?cur neighbor"
      then have "mutual graph neighbor ?cur" by (rule mutual_sym)
      from J1[OF fin this] have "recorded ?cur neighbor st1" by (rule recorded_sym)
      then show "recorded ?cur neighbor st'" using grow(2) by (rule recorded_mono)
    qed
    show ?thesis
      using dfsPost_trans[OF p1 p2] here r by simp
  next
    case False
    show ?thesis
    proof (cases "neighbor \<in> set (recursionStack st)")
      case True
      let ?cycle = "slice path (indexOf path neighbor) @ [neighbor]"
      let ?st1 = "st\<lparr>circularDeps := circularDeps st @ [?cycle]\<rparr>"
      from False True "4.prems"(1) have
        l: "visitNeighbors n graph rest path ?st1 = Some st'" by simp
      have inv1: "dfsInv graph ?st1"
        unfolding dfsInv_def
      proof (intro conjI allI impI)
        show "set (recursionStack ?st1) \<subseteq> set (visited ?st1)" using sub by simp
      next
        fix x y assume a: "finished ?st1 x \<and> mutual graph x y"
        then have "finished st x" unfolding finished_def by simp
        with a J have "recorded x y st" by blast
        then show "recorded x y ?st1" unfolding recorded_def by auto
      qed
      have p1: "dfsPost graph st ?st1"
        unfolding dfsPost_def using inv1 by auto
      have sp1: "set path = set (recursionStack ?st1)" using "4.prems"(3) by simp
      from "4.IH"(3)[OF False True l inv1 sp1 "4.prems"(4)] have
        p2: "dfsPost graph ?st1 st'"
        and r: "\<forall>y \<in> set rest. y \<in> set (visited st')
                  \<and> (mutual graph ?cur y \<longrightarrow> recorded ?cur y st')"
        by simp_all
      have grow: "set (visited ?st1) \<subseteq> set (visited st')"
        "set (circularDeps ?st1) \<subseteq> set (circularDeps st')"
        using p2 unfolding dfsPost_def by simp_all
      have "neighbor \<in> set path" using True "4.prems"(3) by simp
      then have "closesCycle ?cur neighbor ?cycle" by (rule back_edge_cycle)
      then have "recorded ?cur neighbor ?st1" unfolding recorded_def by simp
      then have rec: "recorded ?cur neighbor st'" using grow(2) by (rule recorded_mono)
      have "neighbor \<in> set (visited st')" using False grow(1) by auto
      with rec r dfsPost_trans[OF p1 p2] show ?thesis by simp
    next
      case nos: False
      from False nos "4.prems"(1) have
        l: "visitNeighbors n graph rest path st = Some st'" by simp
      from "4.IH"(4)[OF False nos l "4.prems"(2,3,4)] have
        p2: "dfsPost graph st st'"
        and r: "\<forall>y \<in> set rest. y \<in> set (visited st')
                  \<and> (mutual graph ?cur y \<longrightarrow> recorded ?cur y st')"
        by simp_all
      have grow: "set (visited st) \<subseteq> set (visited st')"
        "set (circularDeps st) \<subseteq> set (circularDeps st')"
        using p2 unfolding dfsPost_def by simp_all
      have fin: "finished st neighbor" unfolding finished_def using False nos by simp
      have here: "neighbor \<in> set (visited st')
                   \<and> (mutual graph ?cur neighbor \<longrightarrow> recorded ?cur neighbor st')"
      proof (intro conjI impI)
        show "neighbor \<in> set (visited st')" using False grow(1) by auto
      next
        assume "mutual graph ?cur neighbor"
        then have "mutual graph neighbor ?cur" by (rule mutual_sym)
        from J[OF fin this] have "recorded ?cur neighbor st" by (rule recorded_sym)
        then show "recorded ?cur neighbor st'" using grow(2) by (rule recorded_mono)
      qed
      show ?thesis using p2 here r by simp
    qed
  qed
qed

lemma visitRoots_invariant:
  "visitRoots n g roots st = Some st' \<Longrightarrow> dfsInv g st \<Longrightarrow> set (recursionStack st) = {}
     \<Longrightarrow> dfsPost g st st' \<and> set roots \<subseteq> set (visited st')"
proof (induction roots arbitrary: st)
  case Nil
  then show ?case by (simp add: dfsPost_refl)
next
  case (Cons r roots)
  show ?case
  proof (cases "r \<notin> set (visited st)")
    case True
    with Cons.prems(1) obtain st1 where d: "dfs n g r [] st = Some st1"
      and l: "visitRoots n g roots st1 = Some st'"
      by (auto split: option.splits)
    have sp: "set [] = set (recursionStack st)" using Cons.prems(3) by simp
    from dfs_invariant(1)[OF d Cons.prems(2) sp True] have
      p1: "dfsPost g st st1" and v1: "r \<in> set (visited st1)" by simp_all
    from p1 have inv1: "dfsInv g st1" and s1: "set (recursionStack st1) = {}"
      using Cons.prems(3) unfolding dfsPost_def by simp_all
    from Cons.IH[OF l inv1 s1] have p2: "dfsPost g st1 st'"
      and rs: "set roots \<subseteq> set (visited st')" by simp_all
    have "r \<in> set (visited st')" using v1 p2 unfolding dfsPost_def by blast
    with dfsPost_trans[OF p1 p2] rs show ?thesis by simp
  next
    case False
    with Cons.prems(1) have l: "visitRoots n g roots st = Some st'" by simp
    from Cons.IH[OF l Cons.prems(2,3)] have p: "dfsPost g st st'"
      and rs: "set roots \<subseteq> set (visited st')" by simp_all
    have "r \<in> set (visited st')" using False p unfolding dfsPost_def by blast
    with p rs show ?thesis by simp
  qed
qed

lemma detectCircularDependencies_mutual:
  assumes "mutual g a b"
  shows "\<exists>cycles. detectCircularDependencies g = Some cycles
           \<and> (\<exists>cycle \<in> set cycles. closesCycle a b cycle)"
proof -
  let ?init = "\<lparr>visited = [], recursionStack = [], circularDeps = []\<rparr>"
  from detectCircularDependencies_returns[of g] obtain st' where
    run: "visitRoots (length (graphNodes g)) g (map fst g) ?init = Some st'"
    by (auto simp: detectCircularDependencies_def)
  have inv0: "dfsInv g ?init" by (simp add: dfsInv_def finished_def)
  from visitRoots_invariant[OF run inv0] have
    post: "dfsPost g ?init st'" and keys: "set (map fst g) \<subseteq> set (visited st')" by simp_all
  from assms have "neighborsOf g a \<noteq> []" by (auto simp: mutual_def)
  then have "map_of g a \<noteq> None" by (auto simp: neighborsOf_def split: option.splits)
  then have "a \<in> fst ` set g" by (simp add: map_of_eq_None_iff)
  with keys have "a \<in> set (visited st')" by auto
  moreover have "set (recursionStack st') = {}" using post unfolding dfsPost_def by simp
  ultimately have "finished st' a" by (simp add: finished_def)
  moreover have "dfsInv g st'" using post unfolding dfsPost_def by simp
  ultimately have "recorded a b st'" using assms unfolding dfsInv_def by blast
  then show ?thesis
    using run unfolding recorded_def detectCircularDependencies_def by simp
qed

text \<open>
  Every cycle the search records is a closed path of the graph: the path handed down the
  recursion is a path of the graph, the stack holds only names on it, and a cycle is
  recorded for a dependency of the last name of the path that is on the stack.
\<close>

lemma isPath_tl: "isPath g (x # xs) \<Longrightarrow> isPath g xs"
  by (cases xs) simp_all

lemma isPath_drop: "isPath g xs \<Longrightarrow> isPath g (drop k xs)"
proof (induction k arbitrary: xs)
  case 0
  then show ?case by simp
next
  case (Suc k)
  show ?case
  proof (cases xs)
    case Nil
    then show ?thesis by simp
  next
    case (Cons x rest)
    with Suc.prems have "isPath g rest" using isPath_tl by blast
    from Suc.IH[OF this] Cons show ?thesis by simp
  qed
qed

lemma isPath_snoc:
  "isPath g xs \<Longrightarrow> xs \<noteq> [] \<Longrightarrow> y \<in> set (neighborsOf g (last xs)) \<Longrightarrow> isPath g (xs @ [y])"
  by (induction g xs rule: isPath.induct) simp_all

lemma isPath_nth:
  "isPath g xs \<longleftrightarrow> (\<forall>i. Suc i < length xs \<longrightarrow> xs ! Suc i \<in> set (neighborsOf g (xs ! i)))"
proof (induction g xs rule: isPath.induct)
  case (1 g)
  then show ?case by simp
next
  case (2 g x)
  then show ?case by simp
next
  case (3 g x y zs)
  show ?case
  proof
    assume a: "isPath g (x # y # zs)"
    then have h: "y \<in> set (neighborsOf g x)" and t: "isPath g (y # zs)" by simp_all
    show "\<forall>i. Suc i < length (x # y # zs)
            \<longrightarrow> (x # y # zs) ! Suc i \<in> set (neighborsOf g ((x # y # zs) ! i))"
    proof (intro allI impI)
      fix i assume i: "Suc i < length (x # y # zs)"
      show "(x # y # zs) ! Suc i \<in> set (neighborsOf g ((x # y # zs) ! i))"
      proof (cases i)
        case 0
        with h show ?thesis by simp
      next
        case (Suc j)
        with i have "Suc j < length (y # zs)" by simp
        with t "3.IH" have "(y # zs) ! Suc j \<in> set (neighborsOf g ((y # zs) ! j))" by blast
        with Suc show ?thesis by simp
      qed
    qed
  next
    assume a: "\<forall>i. Suc i < length (x # y # zs)
            \<longrightarrow> (x # y # zs) ! Suc i \<in> set (neighborsOf g ((x # y # zs) ! i))"
    from a[rule_format, of 0] have h: "y \<in> set (neighborsOf g x)" by simp
    have "\<forall>j. Suc j < length (y # zs) \<longrightarrow> (y # zs) ! Suc j \<in> set (neighborsOf g ((y # zs) ! j))"
    proof (intro allI impI)
      fix j assume "Suc j < length (y # zs)"
      then have "Suc (Suc j) < length (x # y # zs)" by simp
      from a[rule_format, OF this] show "(y # zs) ! Suc j \<in> set (neighborsOf g ((y # zs) ! j))"
        by simp
    qed
    with "3.IH" have "isPath g (y # zs)" by blast
    with h show "isPath g (x # y # zs)" by simp
  qed
qed

lemma neighborsOf_map_of:
  "y \<in> set (neighborsOf g x) \<longleftrightarrow> (\<exists>deps. map_of g x = Some deps \<and> y \<in> set deps)"
  by (cases "map_of g x") (simp_all add: neighborsOf_def)

lemma back_edge_closedPath:
  assumes "nb \<in> set path" "isPath g path" "nb \<in> set (neighborsOf g (last path))"
  shows "closedPath g (slice path (indexOf path nb) @ [nb])"
proof -
  let ?k = "nat (indexOf path nb)"
  from indexOf_found[OF assms(1)] have i: "0 \<le> indexOf path nb" and k: "?k < length path"
    and at: "path ! ?k = nb" by simp_all
  have sl: "slice path (indexOf path nb) = drop ?k path"
    using i by (simp add: slice_def)
  have ne: "drop ?k path \<noteq> []" using k by simp
  have h: "hd (drop ?k path) = nb" using k at by (simp add: hd_drop_conv_nth)
  have l: "last (drop ?k path) = last path" using k by simp
  have p: "isPath g (drop ?k path)" using assms(2) by (rule isPath_drop)
  have "isPath g (drop ?k path @ [nb])"
    using p ne assms(3) l by (intro isPath_snoc) simp_all
  moreover have "2 \<le> length (drop ?k path @ [nb])" using ne
    by (cases "drop ?k path") simp_all
  moreover have "hd (drop ?k path @ [nb]) = last (drop ?k path @ [nb])"
    using ne h by simp
  ultimately show ?thesis unfolding closedPath_def sl by blast
qed

lemma dfs_closedPaths:
  "dfs n g node path st = Some st' \<Longrightarrow> isPath g (path @ [node])
     \<Longrightarrow> set (recursionStack st) \<subseteq> set path
     \<Longrightarrow> \<forall>c \<in> set (circularDeps st). closedPath g c
     \<Longrightarrow> (\<forall>c \<in> set (circularDeps st'). closedPath g c)
         \<and> set (recursionStack st') \<subseteq> set path"
  "visitNeighbors n g nbrs path st = Some st' \<Longrightarrow> isPath g path \<Longrightarrow> path \<noteq> []
     \<Longrightarrow> set nbrs \<subseteq> set (neighborsOf g (last path))
     \<Longrightarrow> set (recursionStack st) \<subseteq> set path
     \<Longrightarrow> \<forall>c \<in> set (circularDeps st). closedPath g c
     \<Longrightarrow> (\<forall>c \<in> set (circularDeps st'). closedPath g c)
         \<and> set (recursionStack st') \<subseteq> set path"
proof (induction n g node path st and n g nbrs path st arbitrary: st' and st'
       rule: dfs_visitNeighbors.induct)
  case (1 graph node path st)
  then show ?case by simp
next
  case (2 n graph node path st)
  let ?st1 = "st\<lparr>visited := setAdd (visited st) node,
                  recursionStack := setAdd (recursionStack st) node\<rparr>"
  from "2.prems"(1) obtain st2 where
    l: "visitNeighbors n graph (neighborsOf graph node) (path @ [node]) ?st1 = Some st2"
    and e: "st' = st2\<lparr>recursionStack := setDelete (recursionStack st2) node\<rparr>"
    by (auto split: option.splits)
  have ne: "path @ [node] \<noteq> []" by simp
  have nb: "set (neighborsOf graph node) \<subseteq> set (neighborsOf graph (last (path @ [node])))"
    by simp
  have stk: "set (recursionStack ?st1) \<subseteq> set (path @ [node])"
    using "2.prems"(3) by auto
  have cyc: "\<forall>c \<in> set (circularDeps ?st1). closedPath graph c"
    using "2.prems"(4) by simp
  from "2.IH"[OF l "2.prems"(2) ne nb stk cyc] have
    c2: "\<forall>c \<in> set (circularDeps st2). closedPath graph c"
    and s2: "set (recursionStack st2) \<subseteq> set (path @ [node])"
    by simp_all
  from c2 s2 e show ?case by auto
next
  case (3 n graph path st)
  then show ?case by simp
next
  case (4 n graph neighbor rest path st)
  have nbr: "neighbor \<in> set (neighborsOf graph (last path))"
    and rst: "set rest \<subseteq> set (neighborsOf graph (last path))"
    using "4.prems"(4) by simp_all
  show ?case
  proof (cases "neighbor \<notin> set (visited st)")
    case True
    with "4.prems"(1) obtain st1 where
      d: "dfs n graph neighbor path st = Some st1"
      and l: "visitNeighbors n graph rest path st1 = Some st'"
      by (auto split: option.splits)
    have p: "isPath graph (path @ [neighbor])"
      using "4.prems"(2,3) nbr by (rule isPath_snoc)
    from "4.IH"(1)[OF True d p "4.prems"(5,6)] have
      c1: "\<forall>c \<in> set (circularDeps st1). closedPath graph c"
      and s1: "set (recursionStack st1) \<subseteq> set path"
      by simp_all
    from "4.IH"(2)[OF True d l "4.prems"(2,3) rst s1 c1] show ?thesis .
  next
    case False
    show ?thesis
    proof (cases "neighbor \<in> set (recursionStack st)")
      case True
      let ?cycle = "slice path (indexOf path neighbor) @ [neighbor]"
      let ?st1 = "st\<lparr>circularDeps := circularDeps st @ [?cycle]\<rparr>"
      from False True "4.prems"(1) have
        l: "visitNeighbors n graph rest path ?st1 = Some st'" by simp
      have "neighbor \<in> set path" using True "4.prems"(5) by blast
      then have "closedPath graph ?cycle"
        using "4.prems"(2) nbr by (rule back_edge_closedPath)
      then have c1: "\<forall>c \<in> set (circularDeps ?st1). closedPath graph c"
        using "4.prems"(6) by simp
      have s1: "set (recursionStack ?st1) \<subseteq> set path" using "4.prems"(5) by simp
      from "4.IH"(3)[OF False True l "4.prems"(2,3) rst s1 c1] show ?thesis .
    next
      case nos: False
      from False nos "4.prems"(1) have
        l: "visitNeighbors n graph rest path st = Some st'" by simp
      from "4.IH"(4)[OF False nos l "4.prems"(2,3) rst "4.prems"(5,6)] show ?thesis .
    qed
  qed
qed

lemma visitRoots_closedPaths:
  "visitRoots n g roots st = Some st' \<Longrightarrow> set (recursionStack st) = {}
     \<Longrightarrow> \<forall>c \<in> set (circularDeps st). closedPath g c
     \<Longrightarrow> \<forall>c \<in> set (circularDeps st'). closedPath g c"
proof (induction roots arbitrary: st)
  case Nil
  then show ?case by simp
next
  case (Cons r roots)
  show ?case
  proof (cases "r \<notin> set (visited st)")
    case True
    with Cons.prems(1) obtain st1 where d: "dfs n g r [] st = Some st1"
      and l: "visitRoots n g roots st1 = Some st'"
      by (auto split: option.splits)
    have p: "isPath g ([] @ [r])" by simp
    have s: "set (recursionStack st) \<subseteq> set []" using Cons.prems(2) by simp
    from dfs_closedPaths(1)[OF d p s Cons.prems(3)] have
      c1: "\<forall>c \<in> set (circularDeps st1). closedPath g c"
      and s1: "set (recursionStack st1) = {}"
      by simp_all
    from Cons.IH[OF l s1 c1] show ?thesis .
  next
    case False
    with Cons.prems(1) have l: "visitRoots n g roots st = Some st'" by simp
    from Cons.IH[OF l Cons.prems(2,3)] show ?thesis .
  qed
qed

lemma detectCircularDependencies_closedPaths:
  assumes "detectCircularDependencies g = Some cycles"
  shows "\<forall>c \<in> set cycles. closedPath g c"
proof -
  let ?init = "\<lparr>visited = [], recursionStack = [], circularDeps = []\<rparr>"
  from assms obtain st' where
    run: "visitRoots (length (graphNodes g)) g (map fst g) ?init = Some st'"
    and c: "cycles = circularDeps st'"
    by (auto simp: detectCircularDependencies_def)
  have "\<forall>c \<in> set (circularDeps st'). closedPath g c"
    using visitRoots_closedPaths[OF run] by simp
  with c show ?thesis by simp
qed

text \<open>
  Claim C7, amended. For every dependency graph in which \<^verbatim>\<open>User\<close> has \<^verbatim>\<open>Post\<close> in its dependency set
  and \<^verbatim>\<open>Post\<close> has \<^verbatim>\<open>User\<close> in its own, \<open>detectCircularDependencies\<close> returns; every cycle it
  returns has at least two entries, ends where it starts, and each of its entries has the
  next one in its dependency set; one of the cycles contains both names; and
  \<open>isCircularDependency\<close> holds of the two names on the returned list. (The cycle that
  contains both names need not be the one of two entities.)
\<close>

theorem detectCircularDependencies_User_Post:
  assumes "map_of graph ''User'' = Some userDeps" and "''Post'' \<in> set userDeps"
    and "map_of graph ''Post'' = Some postDeps" and "''User'' \<in> set postDeps"
  shows "\<exists>cycles. detectCircularDependencies graph = Some cycles
           \<and> (\<forall>cycle \<in> set cycles.
                  2 \<le> length cycle \<and> hd cycle = last cycle
                  \<and> (\<forall>i. Suc i < length cycle \<longrightarrow>
                        (\<exists>deps. map_of graph (cycle ! i) = Some deps
                                \<and> cycle ! Suc i \<in> set deps)))
           \<and> (\<exists>cycle \<in> set cycles. ''User'' \<in> set cycle \<and> ''Post'' \<in> set cycle
                  \<and> 2 \<le> length cycle \<and> hd cycle = last cycle)
           \<and> isCircularDependency ''User'' ''Post'' cycles"
proof -
  have "mutual graph ''User'' ''Post''"
    using assms by (simp add: mutual_def neighborsOf_def)
  from detectCircularDependencies_mutual[OF this] obtain cycles cycle where
    d: "detectCircularDependencies graph = Some cycles"
    and c: "cycle \<in> set cycles" "closesCycle ''User'' ''Post'' cycle"
    by blast
  from c have i: "isCircularDependency ''User'' ''Post'' cycles"
    unfolding isCircularDependency_def list_ex_iff closesCycle_def by blast
  have p: "\<forall>cycle \<in> set cycles.
                  2 \<le> length cycle \<and> hd cycle = last cycle
                  \<and> (\<forall>i. Suc i < length cycle \<longrightarrow>
                        (\<exists>deps. map_of graph (cycle ! i) = Some deps
                                \<and> cycle ! Suc i \<in> set deps))"
    using detectCircularDependencies_closedPaths[OF d]
    unfolding closedPath_def isPath_nth neighborsOf_map_of by blast
  have e: "\<exists>cycle \<in> set cycles. ''User'' \<in> set cycle \<and> ''Post'' \<in> set cycle
                  \<and> 2 \<le> length cycle \<and> hd cycle = last cycle"
    using c unfolding closesCycle_def by blast
  from d p e i show ?thesis by blast
qed

theorem detectCircularDependencies_User_Post_witness:
  "detectCircularDependencies [(''User'', [''Post'']), (''Post'', [''User''])]
     = Some [[''User'', ''Post'', ''User'']]
   \<and> isCircularDependency ''User'' ''Post'' [[''User'', ''Post'', ''User'']]"
proof -
  let ?g = "[(''User'', [''Post'']), (''Post'', [''User''])]"
  have a: "detectCircularDependencies ?g = Some [[''User'', ''Post'', ''User'']]"
    by code_simp
  have "map_of ?g ''User'' = Some [''Post'']" "''Post'' \<in> set [''Post'']"
    "map_of ?g ''Post'' = Some [''User'']" "''User'' \<in> set [''User'']"
    by simp_all
  from detectCircularDependencies_User_Post[OF this] a show ?thesis by simp
qed

text \<open>
  The claim as it stands fails where another entity lies between the two: the search
  records the cycle through all three, and no cycle of the two alone.
\<close>

theorem detectCircularDependencies_counterexample:
  "map_of [(''User'', [''Comment'', ''Post'']), (''Comment'', [''Post'']), (''Post'', [''User''])]
      ''User'' = Some [''Comment'', ''Post'']
   \<and> map_of [(''User'', [''Comment'', ''Post'']), (''Comment'', [''Post'']), (''Post'', [''User''])]
      ''Post'' = Some [''User'']
   \<and> detectCircularDependencies
       [(''User'', [''Comment'', ''Post'']), (''Comment'', [''Post'']), (''Post'', [''User''])]
     = Some [[''User'', ''Comment'', ''Post'', ''User'']]"
  by code_simp
section \<open>Properties of the collection filter\<close>

text \<open>
  Claim C10. Whatever the collection list and the configuration, no collection named
  \<^verbatim>\<open>Dialogues\<close>, \<^verbatim>\<open>Expert_System\<close>, \<^verbatim>\<open>Models\<close> or \<^verbatim>\<open>settings\<close> is among the collections that
  \<open>filterCollections\<close> returns, also when the configuration requests it by name.
\<close>

theorem filterCollections_drops_folders:
  "\<forall>c \<in> set (filterCollections cs config).
     collection c \<noteq> ''Dialogues'' \<and> collection c \<noteq> ''Expert_System''
     \<and> collection c \<noteq> ''Models'' \<and> collection c \<noteq> ''settings''"
  by (auto simp: filterCollections_def foldersToFilter_def Let_def split: option.splits)

theorem filterCollections_drops_folders_witness:
  "filterCollections
     [\<lparr>collection = ''Models''\<rparr>, \<lparr>collection = ''articles''\<rparr>, \<lparr>collection = ''settings''\<rparr>]
     \<lparr>collections = Some [''Models'', ''articles'', ''settings''],
      includeSystemCollections = True, customFieldMappings = (\<lambda>_. None)\<rparr>
   = [\<lparr>collection = ''articles''\<rparr>]
   \<and> list_all (\<lambda>c. collection c \<noteq> ''Dialogues'' \<and> collection c \<noteq> ''Expert_System''
                  \<and> collection c \<noteq> ''Models'' \<and> collection c \<noteq> ''settings'')
       (filterCollections
         [\<lparr>collection = ''Models''\<rparr>, \<lparr>collection = ''articles''\<rparr>, \<lparr>collection = ''settings''\<rparr>]
         \<lparr>collections = Some [''Models'', ''articles'', ''settings''],
          includeSystemCollections = True, customFieldMappings = (\<lambda>_. None)\<rparr>)"
proof -
  have "filterCollections
     [\<lparr>collection = ''Models''\<rparr>, \<lparr>collection = ''articles''\<rparr>, \<lparr>collection = ''settings''\<rparr>]
     \<lparr>collections = Some [''Models'', ''articles'', ''settings''],
      includeSystemCollections = True, customFieldMappings = (\<lambda>_. None)\<rparr>
   = [\<lparr>collection = ''articles''\<rparr>]"
    by (simp add: filterCollections_def foldersToFilter_def)
  then show ?thesis
    using filterCollections_drops_folders
      [of "[\<lparr>collection = ''Models''\<rparr>, \<lparr>collection = ''articles''\<rparr>, \<lparr>collection = ''settings''\<rparr>]"
          "\<lparr>collections = Some [''Models'', ''articles'', ''settings''],
            includeSystemCollections = True, customFieldMappings = (\<lambda>_. None)\<rparr>"]
    unfolding list_all_iff by blast
qed

section \<open>Properties of the two generators\<close>

subsection \<open>The order of the classification\<close>

text \<open>
  Claim C1, amended. Both generators test the kinds in one order: file; radio,
  dropdown-multiple, checkbox-tree; date/time; autocomplete, tag, repeater; relation. So
  for a field that is not a file field, the radio, dropdown-multiple and checkbox-tree
  predicates decide the validator and the type expression whatever else holds of the field,
  the date/time predicate decides them next, also for an autocomplete, tag or repeater
  field, and these three decide them (ahead of the relation test) only for a field that is
  not a date/time field.
\<close>

theorem classification_chain_order:
  assumes "\<not> isFileField f"
  shows "(isRadioButtonField f \<longrightarrow>
            getZodType config parsers relationships f = Some (generateRadioButtonSchema f)
            \<and> getTypeScriptType config parsers relationships f = generateRadioButtonType f)
       \<and> (isDropdownMultipleField f \<longrightarrow>
            getZodType config parsers relationships f = Some (generateDropdownMultipleSchema f)
            \<and> getTypeScriptType config parsers relationships f = generateDropdownMultipleType f)
       \<and> (isCheckboxTreeField f \<longrightarrow>
            getZodType config parsers relationships f = Some (generateCheckboxTreeSchema f)
            \<and> getTypeScriptType config parsers relationships f = generateCheckboxTreeType f)
       \<and> (isDateTimeField f \<and> \<not> isRadioButtonField f \<and> \<not> isDropdownMultipleField f
             \<and> \<not> isCheckboxTreeField f \<longrightarrow>
            getZodType config parsers relationships f = Some (generateDateTimeSchema f)
            \<and> getTypeScriptType config parsers relationships f = generateDateTimeType f)
       \<and> (\<not> isDateTimeField f \<and> isAutocompleteField f \<longrightarrow>
            getZodType config parsers relationships f = Some (generateAutocompleteSchema f)
            \<and> getTypeScriptType config parsers relationships f = generateAutocompleteType f)
       \<and> (\<not> isDateTimeField f \<and> isTagField f \<longrightarrow>
            getZodType config parsers relationships f = Some (generateTagSchema f)
            \<and> getTypeScriptType config parsers relationships f = generateTagType f)
       \<and> (\<not> isDateTimeField f \<and> isRepeaterField f \<longrightarrow>
            getZodType config parsers relationships f = Some (generateRepeaterSchema f)
            \<and> getTypeScriptType config parsers relationships f = generateRepeaterType f)"
  using assms
  by (auto simp: getZodType_def getTypeScriptType_def isRadioButtonField_def
        isDropdownMultipleField_def isCheckboxTreeField_def isAutocompleteField_def
        isTagField_def isRepeaterField_def)

theorem classification_chain_order_witness:
  "\<not> isFileField dateFormat \<and> isRadioButtonField dateFormat \<and> isDateTimeField dateFormat
   \<and> getZodType exampleConfig exampleParsers [] dateFormat
       = Some (''z.enum(['' @ quoted ''iso'' @ '', '' @ quoted ''us'' @ ''])'')
   \<and> getTypeScriptType exampleConfig exampleParsers [] dateFormat
       = quoted ''iso'' @ '' | '' @ quoted ''us''
   \<and> \<not> isFileField updateTags \<and> isTagField updateTags \<and> isDateTimeField updateTags
   \<and> getZodType exampleConfig exampleParsers [] updateTags
       = Some (generateDateTimeSchema updateTags)"
proof -
  have a: "\<not> isFileField dateFormat" "isRadioButtonField dateFormat" "isDateTimeField dateFormat"
    by code_simp+
  have b: "generateRadioButtonSchema dateFormat
             = ''z.enum(['' @ quoted ''iso'' @ '', '' @ quoted ''us'' @ ''])''"
    by code_simp
  have c: "generateRadioButtonType dateFormat = quoted ''iso'' @ '' | '' @ quoted ''us''"
    by code_simp
  have d: "\<not> isFileField updateTags" "isTagField updateTags" "isDateTimeField updateTags"
     "\<not> isRadioButtonField updateTags" "\<not> isDropdownMultipleField updateTags"
     "\<not> isCheckboxTreeField updateTags"
    by code_simp+
  show ?thesis
    using classification_chain_order[OF a(1), of exampleConfig exampleParsers "[]"]
      classification_chain_order[OF d(1), of exampleConfig exampleParsers "[]"] a b c d
    by simp
qed

text \<open>
  The claim as it stands fails on a tag field whose name contains \<^verbatim>\<open>date\<close>: both
  generators answer with the date/time expression, not with the tag expression.
\<close>

theorem classification_chain_counterexample:
  "isTagField updateTags \<and> isDateTimeField updateTags
   \<and> getZodType exampleConfig exampleParsers [] updateTags = Some ''z.string().datetime()''
   \<and> generateTagSchema updateTags
       = ''z.array(z.enum(['' @ quoted ''news'' @ '', '' @ quoted ''draft'' @ '']))''
   \<and> getTypeScriptType exampleConfig exampleParsers [] updateTags = ''string''
   \<and> generateTagType updateTags = ''('' @ quoted ''news'' @ '' | '' @ quoted ''draft'' @ '')[]''"
  by code_simp

subsection \<open>The modifiers of a field\<close>

lemma mapM_member:
  "mapM g xs = Some ys \<Longrightarrow> x \<in> set xs \<Longrightarrow> \<exists>y. g x = Some y \<and> y \<in> set ys"
proof (induction xs arbitrary: ys)
  case Nil
  then show ?case by simp
next
  case (Cons a xs)
  from Cons.prems(1) obtain b bs where
    a: "g a = Some b" and r: "mapM g xs = Some bs" and ys: "ys = b # bs"
    by (auto split: option.splits)
  show ?case
  proof (cases "x = a")
    case True
    with a ys show ?thesis by simp
  next
    case False
    with Cons.prems(2) have "x \<in> set xs" by simp
    from Cons.IH[OF r this] ys show ?thesis by auto
  qed
qed

text \<open>
  Claim C6. The validator entry of a field is its name and its base expression, followed
  by \<^verbatim>\<open>.nullable()\<close> and then \<^verbatim>\<open>.optional()\<close> when the field is nullable and not required, and
  by \<^verbatim>\<open>.optional()\<close> alone when it is not required and not nullable; and every field of a
  list that the generator maps to entries has this entry in the resulting list, which is
  the field list of the base validator.
\<close>

theorem generateFieldSchema_modifiers:
  "(getZodType config parsers relationships f = Some base \<longrightarrow>
      generateFieldSchema config parsers relationships f =
        Some (field f @ '': '' @
              (if isNullableOf f \<and> \<not> isRequiredOf f
                 then base @ ''.nullable()'' @ ''.optional()''
               else if \<not> isRequiredOf f then base @ ''.optional()''
               else base)))
   \<and> (mapM (generateFieldSchema config parsers relationships) kept = Some fs \<and> f \<in> set kept \<longrightarrow>
        (\<exists>base. getZodType config parsers relationships f = Some base
           \<and> field f @ '': '' @
              (if isNullableOf f \<and> \<not> isRequiredOf f
                 then base @ ''.nullable()'' @ ''.optional()''
               else if \<not> isRequiredOf f then base @ ''.optional()''
               else base) \<in> set fs))"
proof (intro conjI impI)
  assume "getZodType config parsers relationships f = Some base"
  then show "generateFieldSchema config parsers relationships f =
        Some (field f @ '': '' @
              (if isNullableOf f \<and> \<not> isRequiredOf f
                 then base @ ''.nullable()'' @ ''.optional()''
               else if \<not> isRequiredOf f then base @ ''.optional()''
               else base))"
    by (simp add: generateFieldSchema_def)
next
  assume a: "mapM (generateFieldSchema config parsers relationships) kept = Some fs \<and> f \<in> set kept"
  then have m: "mapM (generateFieldSchema config parsers relationships) kept = Some fs"
    and k: "f \<in> set kept"
    by simp_all
  from mapM_member[OF m k] obtain entry where
    e: "generateFieldSchema config parsers relationships f = Some entry" "entry \<in> set fs"
    by blast
  from e(1) obtain b where b: "getZodType config parsers relationships f = Some b"
    by (auto simp: generateFieldSchema_def split: option.splits)
  with e have "field f @ '': '' @
              (if isNullableOf f \<and> \<not> isRequiredOf f
                 then b @ ''.nullable()'' @ ''.optional()''
               else if \<not> isRequiredOf f then b @ ''.optional()''
               else b) \<in> set fs"
    by (auto simp: generateFieldSchema_def)
  with b show "\<exists>base. getZodType config parsers relationships f = Some base
           \<and> field f @ '': '' @
              (if isNullableOf f \<and> \<not> isRequiredOf f
                 then base @ ''.nullable()'' @ ''.optional()''
               else if \<not> isRequiredOf f then base @ ''.optional()''
               else base) \<in> set fs"
    by blast
qed

theorem generateFieldSchema_modifiers_witness:
  "generateFieldSchema exampleConfig exampleParsers [] (column ''summary'' ''text'' True False)
     = Some ''summary: z.string().nullable().optional()''
   \<and> generateFieldSchema exampleConfig exampleParsers [] (column ''slug'' ''varchar'' False False)
     = Some ''slug: z.string().optional()''
   \<and> generateFieldSchema exampleConfig exampleParsers [] (column ''title'' ''varchar'' False True)
     = Some ''title: z.string()''"
proof -
  have a: "getZodType exampleConfig exampleParsers [] (column ''summary'' ''text'' True False)
             = Some ''z.string()''"
    by code_simp
  have b: "getZodType exampleConfig exampleParsers [] (column ''slug'' ''varchar'' False False)
             = Some ''z.string()''"
    by code_simp
  have c: "getZodType exampleConfig exampleParsers [] (column ''title'' ''varchar'' False True)
             = Some ''z.string()''"
    by code_simp
  have th: "\<And>f base. getZodType exampleConfig exampleParsers [] f = Some base \<Longrightarrow>
      generateFieldSchema exampleConfig exampleParsers [] f =
        Some (field f @ '': '' @
              (if isNullableOf f \<and> \<not> isRequiredOf f
                 then base @ ''.nullable()'' @ ''.optional()''
               else if \<not> isRequiredOf f then base @ ''.optional()''
               else base))"
    using generateFieldSchema_modifiers[of exampleConfig exampleParsers "[]"] by blast
  show ?thesis
    using th[OF a] th[OF b] th[OF c]
    by (simp add: column_def isNullableOf_def isRequiredOf_def)
qed

subsection \<open>The create variant's omission list\<close>



subsection \<open>What the generators return\<close>


lemma filteredFields_returns:
  "filteredFields c = (if field_list c = [] then Some [] else None)"
  by (cases "field_list c") (simp_all add: filteredFields_def thisIsUiOnlyField_def)

lemma generateSchema_raises:
  "field_list c \<noteq> [] \<Longrightarrow> generateSchema config parsers relationships c isCircular = None"
  by (simp add: generateSchema_def filteredFields_returns split: option.splits)

lemma generateType_raises:
  "field_list c \<noteq> [] \<Longrightarrow> generateType config parsers relationships c = None"
  by (simp add: generateType_def filteredFields_returns Let_def)


subsection \<open>The synthetic identifier\<close>





subsection \<open>User-interface-only fields\<close>

text \<open>
  Claim C4 says that a divider or notice field of a collection adds no entry to the
  validator text of \<open>generateSchema\<close> nor to the type text of \<open>generateType\<close>. The code does
  not get that far: the filter that is to drop such fields calls a member the generators
  do not have, so for a collection with a title and a divider neither text is produced
  (nor for the collection with the title alone), and \<^verbatim>\<open>FieldUtils.isUiOnlyField\<close> has no
  result on the divider either.
\<close>

theorem uiOnly_filter_raises:
  "isDividerField dividerAuthor
   \<and> isUiOnlyField dividerAuthor = None
   \<and> generateSchema exampleConfig exampleParsers []
        \<lparr>collection = ''posts'',
         field_list = [column ''title'' ''varchar'' False True, dividerAuthor]\<rparr> False = None
   \<and> generateType exampleConfig exampleParsers []
        \<lparr>collection = ''posts'',
         field_list = [column ''title'' ''varchar'' False True, dividerAuthor]\<rparr> = None
   \<and> generateSchema exampleConfig exampleParsers []
        \<lparr>collection = ''posts'',
         field_list = [column ''title'' ''varchar'' False True]\<rparr> False = None"
  by code_simp
section \<open>Properties of the import lines\<close>

lemma findRelatedCollection_member:
  "findRelatedCollection singularName rs = Some (Some r) \<Longrightarrow> r \<in> set rs"
  by (induction rs) (auto split: option.splits if_splits)

lemma importPath_cases:
  "importPath isSys relSys file
     = [CHR 0x27] @ (if isSys = relSys then ''./'' else if isSys then ''../'' else ''./system/'')
       @ file @ [CHR 0x27]"
  by (cases isSys; cases relSys) (simp_all add: importPath_def)

lemma importsInv_empty: "importsInv isSys results names [] ([], [])"
  by (simp add: importsInv_def)

lemma importsInv_snoc:
  assumes "importsInv isSys results names pairs (seen, out)"
    and "n \<in> set names" and "findRelatedCollection n results = Some (Some r)"
    and "importKeyFor n r \<notin> set seen"
  shows "importsInv isSys results names (pairs @ [(n, r)])
           (seen @ [importKeyFor n r], out @ importLineFor isSys n r)"
proof -
  have mem: "r \<in> set results" using assms(3) by (rule findRelatedCollection_member)
  from assms(1) have o: "out = concat (map (\<lambda>(n, r). importLineFor isSys n r) pairs)"
    and s: "seen = map (\<lambda>(n, r). importKeyFor n r) pairs"
    and d: "distinct seen"
    and a: "\<forall>(n, r) \<in> set pairs.
              n \<in> set names \<and> r \<in> set results
              \<and> findRelatedCollection n results = Some (Some r)"
    unfolding importsInv_def by auto
  show ?thesis
    unfolding importsInv_def
    using o s d a assms(2,3,4) mem by auto
qed

lemma importStep_inv:
  assumes "importStep result results cycles isSys (Some st) n = Some st'"
    and "importsInv isSys results names pairs st" and "n \<in> set names"
  shows "\<exists>pairs'. importsInv isSys results names pairs' st'"
proof -
  obtain seen out where st: "st = (seen, out)" by (cases st)
  show ?thesis
  proof (cases "findRelatedCollection n results")
    case None
    with assms(1) st show ?thesis by (simp add: importStep_def)
  next
    case (Some found)
    show ?thesis
    proof (cases found)
      case None
      with Some assms(1) st have "st' = st" by (simp add: importStep_def)
      with assms(2) show ?thesis by blast
    next
      case (Some r)
      with \<open>findRelatedCollection n results = Some found\<close>
      have fr: "findRelatedCollection n results = Some (Some r)" by simp
      from assms(1) fr st obtain cur where
        cur: "toSingular (toPascalCase (collectionName result)) = Some cur"
        by (auto simp: importStep_def Let_def split: option.splits)
      show ?thesis
      proof (cases "importKeyFor n r \<in> set seen")
        case True
        with assms(1) fr st cur have "st' = st"
          by (simp add: importStep_def Let_def importKeyFor_def)
        with assms(2) show ?thesis by blast
      next
        case False
        with assms(1) fr st cur have
          "st' = (seen @ [importKeyFor n r], out @ importLineFor isSys n r)"
          by (simp add: importStep_def Let_def importKeyFor_def importLineFor_def
                importPath_cases setAdd_def)
        with importsInv_snoc[OF assms(2)[unfolded st] assms(3) fr False] show ?thesis
          by blast
      qed
    qed
  qed
qed

lemma foldl_importStep_None:
  "foldl (importStep result results cycles isSys) None ns = None"
  by (induction ns) (simp_all add: importStep_def)

lemma foldl_importStep_inv:
  assumes "foldl (importStep result results cycles isSys) (Some st) ns = Some st'"
    and "importsInv isSys results names pairs st" and "set ns \<subseteq> set names"
  shows "\<exists>pairs'. importsInv isSys results names pairs' st'"
  using assms
proof (induction ns arbitrary: st pairs)
  case Nil
  then show ?case by auto
next
  case (Cons n ns)
  show ?case
  proof (cases "importStep result results cycles isSys (Some st) n")
    case None
    with Cons.prems(1) show ?thesis by (simp add: foldl_importStep_None)
  next
    case (Some st1)
    have n: "n \<in> set names" and rest: "set ns \<subseteq> set names" using Cons.prems(3) by simp_all
    from importStep_inv[OF Some Cons.prems(2) n] obtain pairs1 where
      i1: "importsInv isSys results names pairs1 st1" by blast
    have "foldl (importStep result results cycles isSys) (Some st1) ns = Some st'"
      using Cons.prems(1) Some by simp
    from Cons.IH[OF this i1 rest] show ?thesis .
  qed
qed

text \<open>
  Claim C8. The text that \<open>generateImportStatements\<close> returns is the import lines of a list
  of pairs, each a name found in the text of the current artifact with the artifact of the
  result list it resolves to, and nothing else. The line of a pair imports the validator
  and the type of that name from a path chosen by the namespace status of the current and
  of the imported collection: the sibling path \<^verbatim>\<open>./file\<close> when both are system or both
  regular, the parent path \<^verbatim>\<open>../file\<close> when the current one is system and the imported one
  regular, the subfolder path \<^verbatim>\<open>./system/file\<close> when the current one is regular and the
  imported one system.
\<close>

theorem importPath_by_namespace:
  assumes "generateImportStatements result results cycles isSystemCollection = Some text"
  shows "\<exists>relatedCollections pairs.
           extractRelatedCollections result = Some relatedCollections
           \<and> text = concat (map (\<lambda>(singularName, related).
                 ''import { ''
                 @ (if startsWith (collectionName related) ''directus_''
                    then ''DrxDirectus'' @ replaceFirst singularName ''Directus'' [] @ ''Schema''
                    else ''Drx'' @ replaceFirst singularName ''Directus'' [] @ ''Schema'')
                 @ '', type ''
                 @ (if startsWith (collectionName related) ''directus_''
                    then ''DrsDirectus'' @ replaceFirst singularName ''Directus'' []
                    else ''Drs'' @ replaceFirst singularName ''Directus'' [])
                 @ '' } from '' @ [CHR 0x27]
                 @ (if isSystemCollection = startsWith (collectionName related) ''directus_''
                    then ''./''
                    else if isSystemCollection then ''../'' else ''./system/'')
                 @ toKebabCase (collectionName related) @ [CHR 0x27] @ '';'' @ nl) pairs)
           \<and> (\<forall>(singularName, related) \<in> set pairs.
                 singularName \<in> set relatedCollections \<and> related \<in> set results
                 \<and> findRelatedCollection singularName results = Some (Some related))"
proof -
  from assms obtain names where
    ex: "extractRelatedCollections result = Some names"
    by (auto simp: generateImportStatements_def split: option.splits)
  with assms obtain seen where
    f: "foldl (importStep result results cycles isSystemCollection) (Some ([], [])) names
          = Some (seen, text)"
    by (auto simp: generateImportStatements_def)
  from foldl_importStep_inv[OF f importsInv_empty subset_refl] obtain pairs where
    "importsInv isSystemCollection results names pairs (seen, text)" by blast
  then have t: "text = concat (map (\<lambda>(n, r). importLineFor isSystemCollection n r) pairs)"
    and a: "\<forall>(n, r) \<in> set pairs.
              n \<in> set names \<and> r \<in> set results
              \<and> findRelatedCollection n results = Some (Some r)"
    unfolding importsInv_def by auto
  show ?thesis
    apply (rule exI[of _ names], rule exI[of _ pairs])
    apply (intro conjI ex a)
    apply (simp only: t importLineFor_def)
    done
qed

theorem importPath_by_namespace_witness:
  "generateImportStatements postsArtifact [postsArtifact, usersArtifact] [] False
     = Some (''import { DrxDirectusUserSchema, type DrsDirectusUser } from '' @ [CHR 0x27]
             @ ''./system/directus-users'' @ [CHR 0x27] @ '';'' @ nl)
   \<and> generateImportStatements usersArtifact [postsArtifact, usersArtifact] [] True
     = Some (''import { DrxPostSchema, type DrsPost } from '' @ [CHR 0x27]
             @ ''../posts'' @ [CHR 0x27] @ '';'' @ nl)
   \<and> generateImportStatements commentsArtifact [postsArtifact, commentsArtifact] [] False
     = Some (''import { DrxPostSchema, type DrsPost } from '' @ [CHR 0x27]
             @ ''./posts'' @ [CHR 0x27] @ '';'' @ nl)
   \<and> generateImportStatements rolesArtifact [usersArtifact, rolesArtifact] [] True
     = Some (''import { DrxDirectusUserSchema, type DrsDirectusUser } from '' @ [CHR 0x27]
             @ ''./directus-users'' @ [CHR 0x27] @ '';'' @ nl)
   \<and> extractRelatedCollections usersArtifact = Some [''Post'']
   \<and> findRelatedCollection ''Post'' [postsArtifact, usersArtifact] = Some (Some postsArtifact)"
proof -
  have a: "generateImportStatements postsArtifact [postsArtifact, usersArtifact] [] False
     = Some (''import { DrxDirectusUserSchema, type DrsDirectusUser } from '' @ [CHR 0x27]
             @ ''./system/directus-users'' @ [CHR 0x27] @ '';'' @ nl)"
    by code_simp
  have b: "generateImportStatements usersArtifact [postsArtifact, usersArtifact] [] True
     = Some (''import { DrxPostSchema, type DrsPost } from '' @ [CHR 0x27]
             @ ''../posts'' @ [CHR 0x27] @ '';'' @ nl)"
    by code_simp
  have c: "generateImportStatements commentsArtifact [postsArtifact, commentsArtifact] [] False
     = Some (''import { DrxPostSchema, type DrsPost } from '' @ [CHR 0x27]
             @ ''./posts'' @ [CHR 0x27] @ '';'' @ nl)"
    by code_simp
  have d: "generateImportStatements rolesArtifact [usersArtifact, rolesArtifact] [] True
     = Some (''import { DrxDirectusUserSchema, type DrsDirectusUser } from '' @ [CHR 0x27]
             @ ''./directus-users'' @ [CHR 0x27] @ '';'' @ nl)"
    by code_simp
  have e: "extractRelatedCollections usersArtifact = Some [''Post'']"
    by code_simp
  have f: "findRelatedCollection ''Post'' [postsArtifact, usersArtifact]
             = Some (Some postsArtifact)"
    by code_simp
  from importPath_by_namespace[OF b] obtain relatedCollections where
    "extractRelatedCollections usersArtifact = Some relatedCollections"
    by blast
  with a b c d e f show ?thesis by simp
qed

end
